theory Spec2Isabelle
  imports Complex_Main "HOL-Library.Sublist" "HOL-Library.AList" "HOL-Library.Log_Nat"
begin

section \<open>Pricing resolver (pricing.ts)\<close>

text \<open>
  Token counts are integers and the rates of the table are rationals (\<open>0.1\<close> is
  \<open>1/10\<close>). \<open>calculateCost\<close> is the exact value of the cost formula; the value
  that the arithmetic of the Number type computes for it is \<open>calculateCostDouble\<close>
  below, and that is the value the usage aggregator adds up. Strings are byte lists;
  model identifiers are taken to be ASCII, so \<open>toLowerCase\<close> only moves \<open>A..Z\<close>.
  The lookup \<open>MODEL_PRICING[model]\<close> is a lookup of the table's own keys.
\<close>

record ModelPricing =
  inputPerMillion :: rat
  outputPerMillion :: rat
  cacheWriteMultiplier :: rat
  cacheReadMultiplier :: rat

record TokenUsage =
  input_tokens :: int
  output_tokens :: int
  cache_creation_input_tokens :: "int option"
  cache_read_input_tokens :: "int option"

definition mkPricing :: "rat \<Rightarrow> rat \<Rightarrow> ModelPricing" where
  "mkPricing i out = \<lparr>inputPerMillion = i, outputPerMillion = out,
     cacheWriteMultiplier = 5 / 4, cacheReadMultiplier = 1 / 10\<rparr>"

definition MODEL_PRICING :: "(string \<times> ModelPricing) list" where
  "MODEL_PRICING =
    [(''claude-opus-4-5-20251101'', mkPricing 5 25),
     (''claude-opus-4-20250514'', mkPricing 15 75),
     (''claude-sonnet-4-5-20241022'', mkPricing 3 15),
     (''claude-sonnet-4-20250514'', mkPricing 3 15),
     (''claude-haiku-4-5-20251101'', mkPricing 1 5),
     (''claude-3-5-haiku-20241022'', mkPricing (4 / 5) 4),
     (''claude-3-haiku-20240307'', mkPricing (1 / 4) (5 / 4)),
     (''claude-3-5-sonnet-20241022'', mkPricing 3 15),
     (''claude-3-5-sonnet-20240620'', mkPricing 3 15)]"

definition DEFAULT_PRICING :: ModelPricing where
  "DEFAULT_PRICING = mkPricing 3 15"

text \<open>\<open>MODEL_PRICING[key]\<close> for a key written in the source; every such key is in the table.\<close>

definition pricingOf :: "string \<Rightarrow> ModelPricing" where
  "pricingOf k = (case map_of MODEL_PRICING k of Some p \<Rightarrow> p | None \<Rightarrow> DEFAULT_PRICING)"

definition lowerChar :: "char \<Rightarrow> char" where
  "lowerChar c =
    (if (65::nat) \<le> of_char c \<and> of_char c \<le> (90::nat) then char_of (of_char c + (32::nat)) else c)"

definition toLowerCase :: "string \<Rightarrow> string" where
  "toLowerCase s = map lowerChar s"

text \<open>\<open>s.includes(sub)\<close>: \<open>sub\<close> occurs in \<open>s\<close> as a contiguous run.\<close>

fun strIncludes :: "string \<Rightarrow> string \<Rightarrow> bool" where
  "strIncludes [] sub = (sub = [])"
| "strIncludes (c # cs) sub = (prefix sub (c # cs) \<or> strIncludes cs sub)"

definition getModelPricing :: "string option \<Rightarrow> ModelPricing" where
  "getModelPricing model =
    (case model of
       None \<Rightarrow> DEFAULT_PRICING
     | Some m \<Rightarrow>
        if m = [] then DEFAULT_PRICING
        else (case map_of MODEL_PRICING m of
           Some p \<Rightarrow> p
         | None \<Rightarrow>
            (let modelLower = toLowerCase m in
             if strIncludes modelLower ''opus-4-5'' \<or> strIncludes modelLower ''opus-4.5''
               then pricingOf ''claude-opus-4-5-20251101''
             else if strIncludes modelLower ''opus-4'' \<or> strIncludes modelLower ''opus4''
               then pricingOf ''claude-opus-4-20250514''
             else if strIncludes modelLower ''sonnet-4-5'' \<or> strIncludes modelLower ''sonnet-4.5''
               then pricingOf ''claude-sonnet-4-5-20241022''
             else if strIncludes modelLower ''sonnet-4'' \<or> strIncludes modelLower ''sonnet4''
               then pricingOf ''claude-sonnet-4-20250514''
             else if strIncludes modelLower ''haiku-4-5'' \<or> strIncludes modelLower ''haiku-4.5''
               then pricingOf ''claude-haiku-4-5-20251101''
             else if strIncludes modelLower ''haiku-3-5'' \<or> strIncludes modelLower ''haiku-3.5''
               then pricingOf ''claude-3-5-haiku-20241022''
             else if strIncludes modelLower ''haiku''
               then pricingOf ''claude-3-haiku-20240307''
             else if strIncludes modelLower ''sonnet-3-5'' \<or> strIncludes modelLower ''sonnet-3.5''
               then pricingOf ''claude-3-5-sonnet-20241022''
             else if strIncludes modelLower ''sonnet''
               then pricingOf ''claude-sonnet-4-20250514''
             else DEFAULT_PRICING)))"



text \<open>\<open>field || 0\<close> on an optional count: an absent field is zero.\<close>

definition orZero :: "int option \<Rightarrow> int" where
  "orZero v = (case v of None \<Rightarrow> 0 | Some n \<Rightarrow> n)"

section \<open>Arithmetic of the Number type (IEEE 754 binary64)\<close>

text \<open>
  A finite double is modelled as the rational it denotes. \<open>toDouble x\<close> is the double
  nearest to \<open>x\<close>, a tie going to the even significand; the spacing of the doubles
  around \<open>x\<close> is \<open>2\<close> to the power of the binary exponent of \<open>x\<close> minus 52, and
  \<open>2\<close> to the power \<open>-1074\<close> in the subnormal range. Overflow to \<open>Infinity\<close>
  (magnitudes from \<open>2\<close> to the power 1024) is not modelled. An operation of the
  Number type is the exact operation followed by \<open>toDouble\<close>.
\<close>

definition roundEven :: "rat \<Rightarrow> int" where
  "roundEven x =
     (let f = \<lfloor>x\<rfloor>; r = x - of_int f in
      if r < 1 / 2 then f else if 1 / 2 < r then f + 1 else if even f then f else f + 1)"

definition pow2 :: "int \<Rightarrow> rat" where
  "pow2 k = (if 0 \<le> k then 2 ^ nat k else 1 / 2 ^ nat (- k))"

text \<open>The binary exponent of a positive \<open>x\<close>: the \<open>k\<close> with \<open>2 ^ k \<le> x < 2 ^ (k + 1)\<close>.\<close>

definition binExponent :: "rat \<Rightarrow> int" where
  "binExponent x = (if 1 \<le> x then bitlen \<lfloor>x\<rfloor> - 1 else - bitlen (\<lceil>1 / x\<rceil> - 1))"

definition toDouble :: "rat \<Rightarrow> rat" where
  "toDouble x =
     (if x = 0 then 0
      else (let ulp = pow2 (max (binExponent \<bar>x\<bar>) (- 1022) - 52)
            in sgn x * of_int (roundEven (\<bar>x\<bar> / ulp)) * ulp))"

definition dadd :: "rat \<Rightarrow> rat \<Rightarrow> rat" where
  "dadd a b = toDouble (a + b)"

definition dmul :: "rat \<Rightarrow> rat \<Rightarrow> rat" where
  "dmul a b = toDouble (a * b)"

definition ddiv :: "rat \<Rightarrow> rat \<Rightarrow> rat" where
  "ddiv a b = toDouble (a / b)"

text \<open>
  \<open>calculateCost\<close> as the Number type computes it: the token counts and the rates are
  doubles, and every division, multiplication and addition rounds, in the order in which
  the source writes them.
\<close>

definition cacheCostDouble :: "int option \<Rightarrow> rat \<Rightarrow> rat \<Rightarrow> rat" where
  "cacheCostDouble tokens rate multiplier =
    (case tokens of
       None \<Rightarrow> 0
     | Some n \<Rightarrow>
         if n = 0 then 0
         else dmul (dmul (ddiv (toDouble (of_int n)) 1000000) (toDouble rate))
                (toDouble multiplier))"

definition calculateCostDouble :: "TokenUsage \<Rightarrow> string option \<Rightarrow> rat" where
  "calculateCostDouble usage model =
    (let pricing = getModelPricing model;
         inputCost = dmul (ddiv (toDouble (of_int (input_tokens usage))) 1000000)
                       (toDouble (inputPerMillion pricing));
         outputCost = dmul (ddiv (toDouble (of_int (output_tokens usage))) 1000000)
                        (toDouble (outputPerMillion pricing));
         cacheWriteCost = cacheCostDouble (cache_creation_input_tokens usage)
                            (inputPerMillion pricing) (cacheWriteMultiplier pricing);
         cacheReadCost = cacheCostDouble (cache_read_input_tokens usage)
                           (inputPerMillion pricing) (cacheReadMultiplier pricing)
     in dadd (dadd (dadd inputCost outputCost) cacheWriteCost) cacheReadCost)"

section \<open>Text helpers\<close>

text \<open>
  A log file is a string of bytes, and on 7-bit text a character of a line is one byte
  of the file. \<open>trim\<close> strips the white space of ECMAScript, of which the 7-bit
  characters are tab, LF, VT, FF, CR and space; \<open>JSON.parse\<close> skips the white space
  of JSON only: tab, LF, CR and space.
\<close>

definition LF :: char where
  "LF = CHR 0x0A"

definition CR :: char where
  "CR = CHR 0x0D"

definition isSpace :: "char \<Rightarrow> bool" where
  "isSpace c = (c = CHR 0x09 \<or> c = CHR 0x0A \<or> c = CHR 0x0B \<or> c = CHR 0x0C \<or> c = CHR 0x0D
                \<or> c = CHR 0x20)"

definition isJsonSpace :: "char \<Rightarrow> bool" where
  "isJsonSpace c = (c = CHR 0x09 \<or> c = CHR 0x0A \<or> c = CHR 0x0D \<or> c = CHR 0x20)"

definition trim :: "string \<Rightarrow> string" where
  "trim s = rev (dropWhile isSpace (rev (dropWhile isSpace s)))"

text \<open>The text between the leading and the trailing white space that JSON skips.\<close>

definition trimJson :: "string \<Rightarrow> string" where
  "trimJson s = rev (dropWhile isJsonSpace (rev (dropWhile isJsonSpace s)))"

text \<open>\<open>s.split("\n")\<close>: the segments between line feeds, never an empty list.\<close>

fun splitLF :: "string \<Rightarrow> string list" where
  "splitLF [] = [[]]"
| "splitLF (c # cs) =
     (if c = LF then [] # splitLF cs
      else (c # hd (splitLF cs)) # tl (splitLF cs))"

text \<open>
  The lines \<open>readline\<close> emits with \<open>crlfDelay: Infinity\<close>: a line ends at LF, at CR LF
  (one terminator) and at a CR that no LF follows; the terminator is not part of the
  line; a non-empty rest at the end of the input is emitted as the last line.
\<close>

fun rlLines :: "string \<Rightarrow> string list" where
  "rlLines [] = []"
| "rlLines [c] = (if c = LF \<or> c = CR then [[]] else [[c]])"
| "rlLines (c # d # ds) =
     (if c = CR \<and> d = LF then [] # rlLines ds
      else if c = LF \<or> c = CR then [] # rlLines (d # ds)
      else (case rlLines (d # ds) of [] \<Rightarrow> [[c]] | l # ls \<Rightarrow> (c # l) # ls))"


definition join :: "string \<Rightarrow> string \<Rightarrow> string" where
  "join dir file = dir @ ''/'' @ file"

definition endsWith :: "string \<Rightarrow> string \<Rightarrow> bool" where
  "endsWith s ext = (length ext \<le> length s \<and> drop (length s - length ext) s = ext)"

text \<open>\<open>basename(file, ext)\<close> for a directory entry (no separator in \<open>file\<close>).\<close>

definition basename :: "string \<Rightarrow> string \<Rightarrow> string" where
  "basename file ext =
     (if ext \<noteq> [] \<and> endsWith file ext then take (length file - length ext) file else file)"

text \<open>The truthiness of an optional string: present and not empty.\<close>

definition truthy :: "string option \<Rightarrow> bool" where
  "truthy v = (case v of None \<Rightarrow> False | Some t \<Rightarrow> t \<noteq> [])"

section \<open>Data model (storage.ts)\<close>

datatype msg_type = User | Assistant | Summary | FileHistorySnapshot

text \<open>
  The records keep the fields the functions below read; \<open>content\<close> and the
  tool fields are carried by no function modelled here.
\<close>

record MessageBody =
  role :: string
  model :: "string option"
  usage :: "TokenUsage option"

record ConversationMessage =
  type :: msg_type
  uuid :: "string option"
  timestamp :: "string option"
  message :: "MessageBody option"
  summary :: "string option"

record StreamResult =
  messages :: "ConversationMessage list"
  nextOffset :: nat

text \<open>
  Several interfaces share field names (\<open>display\<close>, \<open>timestamp\<close>, \<open>project\<close>,
  \<open>cost\<close>, ...); a shared name is written with its record, as in
  \<open>Session.timestamp\<close>. Two names are suffixed: \<open>id'\<close> and \<open>end'\<close>. Timestamps
  are integer milliseconds since the epoch; counts are natural numbers.
\<close>

record HistoryEntry =
  display :: string
  timestamp :: int
  project :: string
  sessionId :: "string option"

record Session =
  id' :: string
  display :: string
  timestamp :: int
  project :: string
  projectName :: string

record SessionUsage =
  sessionId :: string
  display :: string
  project :: string
  projectName :: string
  totalInputTokens :: int
  totalOutputTokens :: int
  cacheCreationTokens :: int
  cacheReadTokens :: int
  messageCount :: nat
  model :: string
  estimatedCost :: rat
  firstMessageAt :: "string option"
  lastMessageAt :: "string option"

record ModelUsage =
  inputTokens :: int
  outputTokens :: int
  cost :: rat
  count :: nat

text \<open>
  A calendar date \<open>YYYY-MM-DD\<close> (UTC) is modelled by its day number, the days since
  1970-01-01: the date string of an instant \<open>t\<close> is the rendering of \<open>t div 86400000\<close>.
\<close>

record DateTotals =
  inputTokens :: int
  outputTokens :: int
  cacheCreationTokens :: int
  cacheReadTokens :: int
  cost :: rat
  sessionCount :: nat

record DateUsage =
  date :: int
  inputTokens :: int
  outputTokens :: int
  cacheCreationTokens :: int
  cacheReadTokens :: int
  cost :: rat
  sessionCount :: nat

record ProjectUsage =
  projectName :: string
  inputTokens :: int
  outputTokens :: int
  cost :: rat
  sessionCount :: nat

record UsageSummary =
  totalInputTokens :: int
  totalOutputTokens :: int
  totalCacheCreationTokens :: int
  totalCacheReadTokens :: int
  totalEstimatedCost :: rat
  sessionCount :: nat
  messageCount :: nat
  byModel :: "(string \<times> ModelUsage) list"
  byDate :: "DateUsage list"
  byProject :: "(string \<times> ProjectUsage) list"

text \<open>A bound of a time range is modelled by the instant its ISO string denotes.\<close>

record TimeRange =
  start :: "int option"
  end' :: "int option"

record UsageOptions =
  timeRange :: "TimeRange option"
  project :: "string option"

text \<open>
  What the body of the \<open>try\<close> around \<open>JSON.parse(line)\<close> and the read of
  \<open>msg.type\<close> can see: the text is not JSON; it is the literal \<open>null\<close> (reading
  \<open>msg.type\<close> then throws); it is some other value whose \<open>type\<close> is none of the
  four tags; or it is a message.
\<close>

datatype json_line = SyntaxError | JsonNull | JsonOther | JsonMessage ConversationMessage

datatype io_error = ENOENT | EACCES | EIO

record Dirent =
  name :: string
  isDirectory :: bool

record Stats =
  size_bytes :: nat
  mtimeMs :: rat

text \<open>
  The environment of the module: the projects directory, the file system as the module
  observes it (each call succeeds or fails with an error), and the JSON decoder on
  trimmed, non-blank text.
\<close>

record env =
  projectsDir :: string
  readdir :: "string \<Rightarrow> io_error + Dirent list"
  stat :: "string \<Rightarrow> io_error + Stats"
  readFile :: "string \<Rightarrow> io_error + string"
  decode :: "string \<Rightarrow> json_line"

type_synonym fileIndex = "string \<rightharpoonup> string"

text \<open>
  \<open>JSON.parse\<close> skips the white space of JSON around the text and rejects blank
  text; no JSON text begins or ends with VT or FF. The decoder of the environment
  is applied to the text without its surrounding white space.
\<close>

definition JSON_parse :: "env \<Rightarrow> string \<Rightarrow> json_line" where
  "JSON_parse e line =
     (let t = trimJson line in
      if t = [] \<or> isSpace (hd t) \<or> isSpace (last t) then SyntaxError else decode e t)"

section \<open>Session index and conversation store (storage.ts)\<close>

definition findSessionFile :: "env \<Rightarrow> fileIndex \<Rightarrow> string \<Rightarrow> string option \<times> fileIndex" where
  "findSessionFile e fileIdx sid =
    (case fileIdx sid of
       Some p \<Rightarrow> (Some p, fileIdx)
     | None \<Rightarrow>
        (let targetFile = sid @ ''.jsonl'' in
         case readdir e (projectsDir e) of
           Inl err \<Rightarrow> (None, fileIdx)
         | Inr projectDirs \<Rightarrow>
            (let directories = filter isDirectory projectDirs;
                 results = map (\<lambda>dir.
                   let projectPath = join (projectsDir e) (name dir) in
                   case readdir e projectPath of
                     Inl err \<Rightarrow> None
                   | Inr files \<Rightarrow>
                       if targetFile \<in> set (map name files)
                       then Some (join projectPath targetFile) else None) directories
             in case List.find (\<lambda>r. r \<noteq> None) results of
                  Some (Some filePath) \<Rightarrow> (Some filePath, fileIdx(sid \<mapsto> filePath))
                | _ \<Rightarrow> (None, fileIdx))))"

fun isTranscript :: "ConversationMessage \<Rightarrow> bool" where
  "isTranscript msg = (type msg = User \<or> type msg = Assistant)"

text \<open>The loop of the full read: a line that throws is skipped.\<close>

fun readLoop :: "env \<Rightarrow> string list \<Rightarrow> ConversationMessage list \<Rightarrow> ConversationMessage list" where
  "readLoop e [] msgs = msgs"
| "readLoop e (line # lines) msgs =
     (case JSON_parse e line of
        JsonMessage msg \<Rightarrow>
          if isTranscript msg then readLoop e lines (msgs @ [msg])
          else if type msg = Summary then readLoop e lines (msg # msgs)
          else readLoop e lines msgs
      | _ \<Rightarrow> readLoop e lines msgs)"

text \<open>
  The body that \<open>getConversation\<close> hands to \<open>dedupe\<close>; the coalescing is modelled on
  its own below.
\<close>

definition getConversation :: "env \<Rightarrow> fileIndex \<Rightarrow> string \<Rightarrow> ConversationMessage list \<times> fileIndex" where
  "getConversation e fileIdx sid =
    (case findSessionFile e fileIdx sid of
       (None, fileIdx') \<Rightarrow> ([], fileIdx')
     | (Some filePath, fileIdx') \<Rightarrow>
         if filePath = [] then ([], fileIdx')
         else (case readFile e filePath of
                 Inl err \<Rightarrow> ([], fileIdx')
               | Inr content \<Rightarrow>
                   (readLoop e (filter (\<lambda>l. l \<noteq> []) (splitLF (trim content))) [], fileIdx')))"

text \<open>The loop of the incremental read: a line that throws ends the loop.\<close>

fun streamLoop :: "env \<Rightarrow> string list \<Rightarrow> ConversationMessage list \<Rightarrow> nat
    \<Rightarrow> ConversationMessage list \<times> nat" where
  "streamLoop e [] msgs bytesConsumed = (msgs, bytesConsumed)"
| "streamLoop e (line # lines) msgs bytesConsumed =
     (let lineBytes = length line + 1 in
      if trim line \<noteq> [] then
        (case JSON_parse e line of
           SyntaxError \<Rightarrow> (msgs, bytesConsumed)
         | JsonNull \<Rightarrow> (msgs, bytesConsumed)
         | JsonOther \<Rightarrow> streamLoop e lines msgs (bytesConsumed + lineBytes)
         | JsonMessage msg \<Rightarrow>
             if isTranscript msg then streamLoop e lines (msgs @ [msg]) (bytesConsumed + lineBytes)
             else streamLoop e lines msgs (bytesConsumed + lineBytes))
      else streamLoop e lines msgs (bytesConsumed + lineBytes))"

definition getConversationStream :: "env \<Rightarrow> fileIndex \<Rightarrow> string \<Rightarrow> nat \<Rightarrow> StreamResult \<times> fileIndex" where
  "getConversationStream e fileIdx sid fromOffset =
    (case findSessionFile e fileIdx sid of
       (None, fileIdx') \<Rightarrow> (\<lparr>messages = [], nextOffset = 0\<rparr>, fileIdx')
     | (Some filePath, fileIdx') \<Rightarrow>
         if filePath = [] then (\<lparr>messages = [], nextOffset = 0\<rparr>, fileIdx')
         else (case stat e filePath of
                 Inl err \<Rightarrow> (\<lparr>messages = [], nextOffset = fromOffset\<rparr>, fileIdx')
               | Inr fileStat \<Rightarrow>
                   (let fileSize = size_bytes fileStat in
                    if fromOffset \<ge> fileSize
                    then (\<lparr>messages = [], nextOffset = fromOffset\<rparr>, fileIdx')
                    else (case readFile e filePath of
                            Inl err \<Rightarrow> (\<lparr>messages = [], nextOffset = fromOffset\<rparr>, fileIdx')
                          | Inr content \<Rightarrow>
                              (let (msgs, bytesConsumed) =
                                     streamLoop e (rlLines (drop fromOffset content)) [] 0;
                                   actualOffset = fromOffset + bytesConsumed
                               in (\<lparr>messages = msgs,
                                    nextOffset = (if actualOffset > fileSize then fileSize
                                                  else actualOffset)\<rparr>, fileIdx'))))))"

text \<open>
  Chained incremental reads: \<open>n\<close> calls, each at the offset the previous one returned,
  with the returned message lists concatenated.
\<close>

fun streamChain :: "env \<Rightarrow> fileIndex \<Rightarrow> string \<Rightarrow> nat \<Rightarrow> nat \<Rightarrow> ConversationMessage list" where
  "streamChain e fileIdx sid fromOffset 0 = []"
| "streamChain e fileIdx sid fromOffset (Suc n) =
     (case getConversationStream e fileIdx sid fromOffset of
        (r, fileIdx') \<Rightarrow> messages r @ streamChain e fileIdx' sid (nextOffset r) n)"

text \<open>The offset reached after \<open>n\<close> chained incremental reads.\<close>

fun chainOffset :: "env \<Rightarrow> fileIndex \<Rightarrow> string \<Rightarrow> nat \<Rightarrow> nat \<Rightarrow> nat" where
  "chainOffset e fileIdx sid fromOffset 0 = fromOffset"
| "chainOffset e fileIdx sid fromOffset (Suc n) =
     (case getConversationStream e fileIdx sid fromOffset of
        (r, fileIdx') \<Rightarrow> chainOffset e fileIdx' sid (nextOffset r) n)"

section \<open>History reconciler (storage.ts)\<close>

definition encodeProjectPath :: "string \<Rightarrow> string" where
  "encodeProjectPath path =
     map (\<lambda>c. if c = CHR ''/'' \<or> c = CHR ''.'' then CHR ''-'' else c) path"

text \<open>\<open>s.split(sep)\<close> for a one-character separator.\<close>

fun splitOn :: "char \<Rightarrow> string \<Rightarrow> string list" where
  "splitOn sep [] = [[]]"
| "splitOn sep (c # cs) =
     (if c = sep then [] # splitOn sep cs
      else (c # hd (splitOn sep cs)) # tl (splitOn sep cs))"

definition getProjectName :: "string \<Rightarrow> string" where
  "getProjectName projectPath =
     (let parts = filter (\<lambda>x. x \<noteq> []) (splitOn (CHR ''/'') projectPath)
      in if parts \<noteq> [] then last parts else projectPath)"

text \<open>
  \<open>Promise.all\<close> over the stats of the files: the list of names with their
  modification times, or the error of a stat that fails.
\<close>

fun statAll :: "env \<Rightarrow> string \<Rightarrow> string list \<Rightarrow> io_error + (string \<times> rat) list" where
  "statAll e projectPath [] = Inr []"
| "statAll e projectPath (file # files) =
     (case stat e (join projectPath file) of
        Inl err \<Rightarrow> Inl err
      | Inr fileStat \<Rightarrow>
          (case statAll e projectPath files of
             Inl err \<Rightarrow> Inl err
           | Inr rest \<Rightarrow> Inr ((file, mtimeMs fileStat) # rest)))"

text \<open>
  The search loop; \<open>closestFile\<close> starts as null (\<open>None\<close>) and \<open>closestTimeDiff\<close> as
  Infinity (\<open>None\<close>).
\<close>

fun closestLoop :: "(string \<times> rat) list \<Rightarrow> rat \<Rightarrow> string option \<Rightarrow> rat option \<Rightarrow> string option" where
  "closestLoop [] ts closestFile closestTimeDiff = closestFile"
| "closestLoop ((file, mtime) # rest) ts closestFile closestTimeDiff =
     (let timeDiff = \<bar>mtime - ts\<bar> in
      if (case closestTimeDiff of None \<Rightarrow> True | Some d \<Rightarrow> timeDiff < d)
      then closestLoop rest ts (Some file) (Some timeDiff)
      else closestLoop rest ts closestFile closestTimeDiff)"

definition findSessionByTimestamp :: "env \<Rightarrow> string \<Rightarrow> int \<Rightarrow> string option" where
  "findSessionByTimestamp e encodedProject ts =
    (let projectPath = join (projectsDir e) encodedProject in
     case readdir e projectPath of
       Inl err \<Rightarrow> None
     | Inr files \<Rightarrow>
         (let jsonlFiles = filter (\<lambda>f. endsWith f ''.jsonl'') (map name files) in
          case statAll e projectPath jsonlFiles of
            Inl err \<Rightarrow> None
          | Inr fileStats \<Rightarrow>
              (case closestLoop fileStats (of_int ts) None None of
                 Some closestFile \<Rightarrow>
                   if closestFile \<noteq> [] then Some (basename closestFile ''.jsonl'') else None
               | None \<Rightarrow> None)))"

text \<open>The first loop of \<open>getSessions\<close>: the sessions of the history entries.\<close>

definition resolveEntry :: "env \<Rightarrow> HistoryEntry \<Rightarrow> string option" where
  "resolveEntry e entry =
     (if truthy (HistoryEntry.sessionId entry) then HistoryEntry.sessionId entry
      else findSessionByTimestamp e (encodeProjectPath (HistoryEntry.project entry))
             (HistoryEntry.timestamp entry))"

fun historySessions :: "env \<Rightarrow> HistoryEntry list \<Rightarrow> string set \<Rightarrow> Session list \<Rightarrow> Session list" where
  "historySessions e [] seenIds sessions = sessions"
| "historySessions e (entry # entries) seenIds sessions =
     (case resolveEntry e entry of
        None \<Rightarrow> historySessions e entries seenIds sessions
      | Some sid \<Rightarrow>
          if sid = [] \<or> sid \<in> seenIds then historySessions e entries seenIds sessions
          else historySessions e entries (insert sid seenIds)
                 (sessions @ [\<lparr>id' = sid,
                                display = HistoryEntry.display entry,
                                timestamp = HistoryEntry.timestamp entry,
                                project = HistoryEntry.project entry,
                                projectName = getProjectName (HistoryEntry.project entry)\<rparr>]))"

section \<open>Request coalescer (storage.ts)\<close>

text \<open>
  JavaScript runs one task at a time, so a call of \<open>dedupe\<close> up to its return is one
  step on the map \<open>pendingRequests\<close>. A promise is modelled by its number;
  \<open>started\<close> logs every computation that is started, with its label and its promise.
\<close>

record loop_state =
  pendingRequests :: "string \<rightharpoonup> nat"
  started :: "(string \<times> nat) list"
  nextPromise :: nat

text \<open>Calling an async function body: a new computation with a new promise.\<close>

definition startWork :: "loop_state \<Rightarrow> string \<Rightarrow> nat \<times> loop_state" where
  "startWork st label =
     (nextPromise st,
      st\<lparr>started := started st @ [(label, nextPromise st)],
         nextPromise := Suc (nextPromise st)\<rparr>)"

definition dedupe :: "loop_state \<Rightarrow> string \<Rightarrow> nat \<times> loop_state" where
  "dedupe st key =
     (case pendingRequests st key of
        Some existing \<Rightarrow> (existing, st)
      | None \<Rightarrow>
          (case startWork st key of
             (promise, st') \<Rightarrow>
               (promise, st'\<lparr>pendingRequests := (pendingRequests st')(key \<mapsto> promise)\<rparr>)))"

text \<open>The \<open>finally\<close> callback of a settled promise.\<close>

definition settle :: "loop_state \<Rightarrow> string \<Rightarrow> loop_state" where
  "settle st key = st\<lparr>pendingRequests := (pendingRequests st)(key := None)\<rparr>"

text \<open>
  The two read modes as seen by the event loop: \<open>getConversation\<close> wraps its body in
  \<open>dedupe\<close>, \<open>getConversationStream\<close> runs its body directly.
\<close>

definition callGetConversation :: "loop_state \<Rightarrow> string \<Rightarrow> nat \<times> loop_state" where
  "callGetConversation st sid = dedupe st (''getConversation:'' @ sid)"

definition callGetConversationStream :: "loop_state \<Rightarrow> string \<Rightarrow> nat \<times> loop_state" where
  "callGetConversationStream st sid = startWork st (''getConversationStream:'' @ sid)"

text \<open>\<open>n\<close> calls of \<open>getConversation\<close> for one session with no settlement in between.\<close>

fun callsGetConversation :: "nat \<Rightarrow> loop_state \<Rightarrow> string \<Rightarrow> nat list \<times> loop_state" where
  "callsGetConversation 0 st sid = ([], st)"
| "callsGetConversation (Suc n) st sid =
     (case callGetConversation st sid of
        (p, st') \<Rightarrow> (case callsGetConversation n st' sid of (ps, st'') \<Rightarrow> (p # ps, st'')))"

definition idleLoop :: loop_state where
  "idleLoop = \<lparr>pendingRequests = Map.empty, started = [], nextPromise = 0\<rparr>"

section \<open>Usage aggregator (pricing.ts, storage.ts)\<close>

definition isDigit :: "char \<Rightarrow> bool" where
  "isDigit c = ((48::nat) \<le> of_char c \<and> of_char c \<le> (57::nat))"

text \<open>\<open>model.replace(/^claude-/, "")\<close> and \<open>.replace(/-\d{8}$/, "")\<close>.\<close>

definition stripClaudePrefix :: "string \<Rightarrow> string" where
  "stripClaudePrefix m = (if prefix ''claude-'' m then drop 7 m else m)"

definition stripDateSuffix :: "string \<Rightarrow> string" where
  "stripDateSuffix m =
     (let n = length m in
      if 9 \<le> n \<and> m ! (n - 9) = CHR ''-'' \<and> list_all isDigit (drop (n - 8) m)
      then take (n - 9) m else m)"

definition getModelDisplayName :: "string option \<Rightarrow> string" where
  "getModelDisplayName mdl =
    (case mdl of
       None \<Rightarrow> ''Unknown''
     | Some m \<Rightarrow>
        if m = [] then ''Unknown''
        else
          (let modelLower = toLowerCase m in
           if strIncludes modelLower ''opus-4-5'' \<or> strIncludes modelLower ''opus-4.5''
             then ''Opus 4.5''
           else if strIncludes modelLower ''opus-4'' \<or> strIncludes modelLower ''opus4''
             then ''Opus 4''
           else if strIncludes modelLower ''sonnet-4-5'' \<or> strIncludes modelLower ''sonnet-4.5''
             then ''Sonnet 4.5''
           else if strIncludes modelLower ''sonnet-4'' \<or> strIncludes modelLower ''sonnet4''
             then ''Sonnet 4''
           else if strIncludes modelLower ''haiku-4-5'' \<or> strIncludes modelLower ''haiku-4.5''
             then ''Haiku 4.5''
           else if strIncludes modelLower ''haiku-3-5'' \<or> strIncludes modelLower ''haiku-3.5''
             then ''Haiku 3.5''
           else if strIncludes modelLower ''haiku'' then ''Haiku 3''
           else if strIncludes modelLower ''sonnet-3-5'' \<or> strIncludes modelLower ''sonnet-3.5''
             then ''Sonnet 3.5''
           else if strIncludes modelLower ''sonnet'' then ''Sonnet''
           else if strIncludes modelLower ''opus'' then ''Opus''
           else stripDateSuffix (stripClaudePrefix m)))"

text \<open>\<open>msg.message?.usage\<close> and \<open>msg.message.model\<close>.\<close>

definition messageUsage :: "ConversationMessage \<Rightarrow> TokenUsage option" where
  "messageUsage msg = (case message msg of None \<Rightarrow> None | Some body \<Rightarrow> usage body)"

definition messageModel :: "ConversationMessage \<Rightarrow> string option" where
  "messageModel msg = (case message msg of None \<Rightarrow> None | Some body \<Rightarrow> MessageBody.model body)"

text \<open>
  The loop of \<open>getSessionUsage\<close>; the accumulator holds the local variables in the
  fields of the record that is returned.
\<close>

fun usageLoop :: "ConversationMessage list \<Rightarrow> SessionUsage \<Rightarrow> SessionUsage" where
  "usageLoop [] acc = acc"
| "usageLoop (msg # msgs) acc =
    (let acc1 =
       (case messageUsage msg of
          Some u \<Rightarrow>
            if type msg = Assistant then
              (let a = acc\<lparr>
                 SessionUsage.totalInputTokens :=
                   SessionUsage.totalInputTokens acc + input_tokens u,
                 SessionUsage.totalOutputTokens :=
                   SessionUsage.totalOutputTokens acc + output_tokens u,
                 SessionUsage.cacheCreationTokens :=
                   SessionUsage.cacheCreationTokens acc + orZero (cache_creation_input_tokens u),
                 SessionUsage.cacheReadTokens :=
                   SessionUsage.cacheReadTokens acc + orZero (cache_read_input_tokens u),
                 estimatedCost :=
                   dadd (estimatedCost acc) (calculateCostDouble u (messageModel msg))\<rparr>
               in if truthy (messageModel msg)
                  then a\<lparr>SessionUsage.model := getModelDisplayName (messageModel msg)\<rparr>
                  else a)
            else acc
        | None \<Rightarrow> acc);
         acc2 =
       (if isTranscript msg then
          (let a = acc1\<lparr>SessionUsage.messageCount := SessionUsage.messageCount acc1 + 1\<rparr>
           in if truthy (ConversationMessage.timestamp msg)
              then a\<lparr>firstMessageAt :=
                       (if truthy (firstMessageAt a) then firstMessageAt a
                        else ConversationMessage.timestamp msg),
                     lastMessageAt := ConversationMessage.timestamp msg\<rparr>
              else a)
        else acc1)
     in usageLoop msgs acc2)"

text \<open>\<open>sessions\<close> is the list \<open>getSessions()\<close> returns.\<close>

definition getSessionUsage :: "env \<Rightarrow> fileIndex \<Rightarrow> Session list \<Rightarrow> string
    \<Rightarrow> SessionUsage option \<times> fileIndex" where
  "getSessionUsage e fileIdx sessions sid =
    (case getConversation e fileIdx sid of
       (msgs, fileIdx') \<Rightarrow>
         if length msgs = 0 then (None, fileIdx')
         else
           (let session = List.find (\<lambda>s. id' s = sid) sessions in
            (Some (usageLoop msgs \<lparr>
               sessionId = sid,
               display = (case session of
                            Some s \<Rightarrow> if Session.display s \<noteq> [] then Session.display s
                                      else ''Unknown session''
                          | None \<Rightarrow> ''Unknown session''),
               project = (case session of Some s \<Rightarrow> Session.project s | None \<Rightarrow> []),
               projectName = (case session of Some s \<Rightarrow> Session.projectName s | None \<Rightarrow> []),
               totalInputTokens = 0,
               totalOutputTokens = 0,
               cacheCreationTokens = 0,
               cacheReadTokens = 0,
               messageCount = 0,
               model = ''Unknown'',
               estimatedCost = 0,
               firstMessageAt = None,
               lastMessageAt = None\<rparr>), fileIdx')))"

text \<open>The per-session local variables of \<open>getUsageSummary\<close>.\<close>

record SessionTotals =
  sessionInputTokens :: int
  sessionOutputTokens :: int
  sessionCacheCreationTokens :: int
  sessionCacheReadTokens :: int
  sessionCost :: rat
  sessionMessageCount :: nat

definition bumpModel :: "string \<Rightarrow> TokenUsage \<Rightarrow> rat \<Rightarrow> (string \<times> ModelUsage) list
    \<Rightarrow> (string \<times> ModelUsage) list" where
  "bumpModel modelName u c m =
    (let cur = (case map_of m modelName of
                  Some x \<Rightarrow> x
                | None \<Rightarrow> \<lparr>ModelUsage.inputTokens = 0, outputTokens = 0, cost = 0, count = 0\<rparr>)
     in AList.update modelName
          \<lparr>ModelUsage.inputTokens = ModelUsage.inputTokens cur + input_tokens u,
           outputTokens = ModelUsage.outputTokens cur + output_tokens u,
           cost = dadd (ModelUsage.cost cur) c,
           count = count cur + 1\<rparr> m)"

fun summaryMessageLoop :: "ConversationMessage list \<Rightarrow> SessionTotals \<Rightarrow> UsageSummary
    \<Rightarrow> SessionTotals \<times> UsageSummary" where
  "summaryMessageLoop [] t summ = (t, summ)"
| "summaryMessageLoop (msg # msgs) t summ =
    (case (case messageUsage msg of
             Some u \<Rightarrow>
               if type msg = Assistant then
                 (let mdl = messageModel msg;
                      c = calculateCostDouble u mdl;
                      modelName = getModelDisplayName mdl
                  in (t\<lparr>sessionInputTokens := sessionInputTokens t + input_tokens u,
                        sessionOutputTokens := sessionOutputTokens t + output_tokens u,
                        sessionCacheCreationTokens :=
                          sessionCacheCreationTokens t + orZero (cache_creation_input_tokens u),
                        sessionCacheReadTokens :=
                          sessionCacheReadTokens t + orZero (cache_read_input_tokens u),
                        sessionCost := dadd (sessionCost t) c\<rparr>,
                      summ\<lparr>totalCacheCreationTokens :=
                          totalCacheCreationTokens summ + orZero (cache_creation_input_tokens u),
                        totalCacheReadTokens :=
                          totalCacheReadTokens summ + orZero (cache_read_input_tokens u),
                        byModel := bumpModel modelName u c (byModel summ)\<rparr>))
               else (t, summ)
           | None \<Rightarrow> (t, summ)) of
       (t1, summ1) \<Rightarrow>
         summaryMessageLoop msgs
           (if isTranscript msg then t1\<lparr>sessionMessageCount := sessionMessageCount t1 + 1\<rparr>
            else t1) summ1)"

definition dayMs :: int where
  "dayMs = 86400000"

text \<open>
  \<open>new Date(t).toISOString().split("T")[0]\<close>: the day number of \<open>t\<close>; outside the range
  of valid dates \<open>toISOString\<close> throws a RangeError (\<open>None\<close>).
\<close>

definition validTime :: "int \<Rightarrow> bool" where
  "validTime t = (- 8640000000000000 \<le> t \<and> t \<le> 8640000000000000)"

definition dateKey :: "int \<Rightarrow> int option" where
  "dateKey t = (if validTime t then Some (t div dayMs) else None)"

definition bumpDate :: "int \<Rightarrow> SessionTotals \<Rightarrow> (int \<times> DateTotals) list
    \<Rightarrow> (int \<times> DateTotals) list" where
  "bumpDate d t m =
    (let dateEntry = (case map_of m d of
                        Some x \<Rightarrow> x
                      | None \<Rightarrow> \<lparr>DateTotals.inputTokens = 0, outputTokens = 0, cacheCreationTokens = 0,
                                  cacheReadTokens = 0, cost = 0, sessionCount = 0\<rparr>)
     in AList.update d
          \<lparr>DateTotals.inputTokens = DateTotals.inputTokens dateEntry + sessionInputTokens t,
           outputTokens = DateTotals.outputTokens dateEntry + sessionOutputTokens t,
           cacheCreationTokens =
             DateTotals.cacheCreationTokens dateEntry + sessionCacheCreationTokens t,
           cacheReadTokens = DateTotals.cacheReadTokens dateEntry + sessionCacheReadTokens t,
           cost = dadd (DateTotals.cost dateEntry) (sessionCost t),
           sessionCount = DateTotals.sessionCount dateEntry + 1\<rparr> m)"

definition bumpProject :: "Session \<Rightarrow> SessionTotals \<Rightarrow> (string \<times> ProjectUsage) list
    \<Rightarrow> (string \<times> ProjectUsage) list" where
  "bumpProject session t m =
    (let projectKey = (if Session.project session \<noteq> [] then Session.project session
                       else ''Unknown'');
         cur = (case map_of m projectKey of
                  Some x \<Rightarrow> x
                | None \<Rightarrow> \<lparr>projectName = (if Session.projectName session \<noteq> []
                                              then Session.projectName session else ''Unknown''),
                            inputTokens = 0, outputTokens = 0, cost = 0, sessionCount = 0\<rparr>)
     in AList.update projectKey
          (cur\<lparr>ProjectUsage.inputTokens := ProjectUsage.inputTokens cur + sessionInputTokens t,
               ProjectUsage.outputTokens := ProjectUsage.outputTokens cur + sessionOutputTokens t,
               ProjectUsage.cost := dadd (ProjectUsage.cost cur) (sessionCost t),
               ProjectUsage.sessionCount := ProjectUsage.sessionCount cur + 1\<rparr>) m)"

definition zeroTotals :: SessionTotals where
  "zeroTotals = \<lparr>sessionInputTokens = 0, sessionOutputTokens = 0,
     sessionCacheCreationTokens = 0, sessionCacheReadTokens = 0, sessionCost = 0,
     sessionMessageCount = 0\<rparr>"

definition emptySummary :: UsageSummary where
  "emptySummary = \<lparr>totalInputTokens = 0, totalOutputTokens = 0,
     totalCacheCreationTokens = 0, totalCacheReadTokens = 0, totalEstimatedCost = 0,
     sessionCount = 0, messageCount = 0, byModel = [], byDate = [], byProject = []\<rparr>"

text \<open>
  The loop over the filtered sessions. \<open>None\<close> is the RangeError of \<open>toISOString\<close> on
  a session whose timestamp is no valid date, which rejects the whole call.
\<close>

fun sessionLoop :: "env \<Rightarrow> Session list \<Rightarrow> UsageSummary \<Rightarrow> (int \<times> DateTotals) list
    \<Rightarrow> fileIndex \<Rightarrow> (UsageSummary \<times> (int \<times> DateTotals) list \<times> fileIndex) option" where
  "sessionLoop e [] summ byDateMap fileIdx = Some (summ, byDateMap, fileIdx)"
| "sessionLoop e (session # rest) summ byDateMap fileIdx =
    (case getConversation e fileIdx (id' session) of
       (msgs, fileIdx') \<Rightarrow>
         (case summaryMessageLoop msgs zeroTotals summ of
            (t, summ1) \<Rightarrow>
              if sessionMessageCount t > 0 then
                (case dateKey (Session.timestamp session) of
                   None \<Rightarrow> None
                 | Some d \<Rightarrow>
                     sessionLoop e rest
                       (summ1\<lparr>
                          UsageSummary.sessionCount := UsageSummary.sessionCount summ1 + 1,
                          UsageSummary.messageCount :=
                            UsageSummary.messageCount summ1 + sessionMessageCount t,
                          UsageSummary.totalInputTokens :=
                            UsageSummary.totalInputTokens summ1 + sessionInputTokens t,
                          UsageSummary.totalOutputTokens :=
                            UsageSummary.totalOutputTokens summ1 + sessionOutputTokens t,
                          totalEstimatedCost :=
                            dadd (totalEstimatedCost summ1) (sessionCost t),
                          byProject := bumpProject session t (byProject summ1)\<rparr>)
                       (bumpDate d t byDateMap) fileIdx')
              else sessionLoop e rest summ1 byDateMap fileIdx'))"

definition filterSessions :: "UsageOptions \<Rightarrow> Session list \<Rightarrow> Session list" where
  "filterSessions opts sessions =
    (let filtered1 =
           (case UsageOptions.project opts of
              Some p \<Rightarrow> if p \<noteq> [] then filter (\<lambda>s. Session.project s = p) sessions
                        else sessions
            | None \<Rightarrow> sessions)
     in case timeRange opts of
          None \<Rightarrow> filtered1
        | Some tr \<Rightarrow>
            if start tr \<noteq> None \<or> end' tr \<noteq> None then
              filter (\<lambda>s.
                (case start tr of Some startTime \<Rightarrow> startTime | None \<Rightarrow> 0)
                  \<le> Session.timestamp s
                \<and> (case end' tr of Some endTime \<Rightarrow> Session.timestamp s \<le> endTime
                    | None \<Rightarrow> True)) filtered1
            else filtered1)"

definition toDateUsage :: "int \<times> DateTotals \<Rightarrow> DateUsage" where
  "toDateUsage entry = (case entry of (d, x) \<Rightarrow>
     \<lparr>date = d, inputTokens = DateTotals.inputTokens x,
      outputTokens = DateTotals.outputTokens x,
      cacheCreationTokens = DateTotals.cacheCreationTokens x,
      cacheReadTokens = DateTotals.cacheReadTokens x,
      cost = DateTotals.cost x, sessionCount = DateTotals.sessionCount x\<rparr>)"

definition getUsageSummary :: "env \<Rightarrow> fileIndex \<Rightarrow> Session list \<Rightarrow> UsageOptions
    \<Rightarrow> (UsageSummary \<times> fileIndex) option" where
  "getUsageSummary e fileIdx sessions opts =
    (case sessionLoop e (filterSessions opts sessions) emptySummary [] fileIdx of
       None \<Rightarrow> None
     | Some (summ, byDateMap, fileIdx') \<Rightarrow>
         Some (summ\<lparr>byDate := sort_key date (map toDateUsage byDateMap)\<rparr>, fileIdx'))"

text \<open>
  \<open>getDailyUsage\<close>. The two clock readings \<open>new Date()\<close> are parameters
  (\<open>endNow\<close> first, then \<open>startNow\<close>); \<open>setDate(getDate() + k)\<close> moves an instant
  by \<open>k\<close> days of 24 hours (local time without clock changes in the window), and gives
  an invalid date outside the range of valid dates.
\<close>

function fillDates :: "(int \<rightharpoonup> DateUsage) \<Rightarrow> int \<Rightarrow> int \<Rightarrow> DateUsage list option" where
  "fillDates dateMap endDate current =
    (if current \<le> endDate then
       (case dateKey current of
          None \<Rightarrow> None
        | Some dateStr \<Rightarrow>
            (case fillDates dateMap endDate (current + dayMs) of
               None \<Rightarrow> None
             | Some result \<Rightarrow>
                 Some ((case dateMap dateStr of
                          Some d \<Rightarrow> d
                        | None \<Rightarrow> \<lparr>date = dateStr, inputTokens = 0, outputTokens = 0,
                                    cacheCreationTokens = 0, cacheReadTokens = 0, cost = 0,
                                    sessionCount = 0\<rparr>) # result)))
     else Some [])"
  by pat_completeness auto
termination
  by (relation "measure (\<lambda>(dateMap, endDate, current). nat (endDate + 1 - current))")
     (auto simp: dayMs_def)

definition getDailyUsage :: "env \<Rightarrow> fileIndex \<Rightarrow> Session list \<Rightarrow> int \<Rightarrow> int \<Rightarrow> int
    \<Rightarrow> (DateUsage list \<times> fileIndex) option" where
  "getDailyUsage e fileIdx sessions endNow startNow days =
    (let endDate = endNow;
         startDate = startNow - days * dayMs
     in if validTime startDate \<and> validTime endDate then
          (case getUsageSummary e fileIdx sessions
                  \<lparr>timeRange = Some \<lparr>start = Some startDate, end' = Some endDate\<rparr>,
                   project = None\<rparr> of
             None \<Rightarrow> None
           | Some (summ, fileIdx') \<Rightarrow>
               (case fillDates (map_of (rev (map (\<lambda>d. (date d, d)) (byDate summ))))
                       endDate startDate of
                  None \<Rightarrow> None
                | Some result \<Rightarrow> Some (result, fileIdx')))
        else None)"

section \<open>Notions used to state the properties of the conversation store\<close>

text \<open>The transcript message a line contributes, if any.\<close>

fun transcriptOf :: "env \<Rightarrow> string \<Rightarrow> ConversationMessage list" where
  "transcriptOf e line =
     (case JSON_parse e line of
        JsonMessage msg \<Rightarrow> if isTranscript msg then [msg] else []
      | _ \<Rightarrow> [])"

text \<open>The summary message a line contributes, if any.\<close>

fun summaryOf :: "env \<Rightarrow> string \<Rightarrow> ConversationMessage list" where
  "summaryOf e line =
     (case JSON_parse e line of
        JsonMessage msg \<Rightarrow> if \<not> isTranscript msg \<and> type msg = Summary then [msg] else []
      | _ \<Rightarrow> [])"


text \<open>
  A line the incremental read consumes: it is blank, or it decodes to a value other than
  \<open>null\<close> (reading the \<open>type\<close> of \<open>null\<close> throws, which ends the loop like a
  syntax error does).
\<close>

definition consumable :: "env \<Rightarrow> string \<Rightarrow> bool" where
  "consumable e line =
     (trim line = [] \<or> (JSON_parse e line \<noteq> SyntaxError \<and> JSON_parse e line \<noteq> JsonNull))"

text \<open>The bytes the incremental read counts for a list of lines.\<close>

definition lineBytesOf :: "string list \<Rightarrow> nat" where
  "lineBytesOf ls = sum_list (map (\<lambda>l. length l + 1) ls)"



text \<open>
  The invariant of the session loop of \<open>getUsageSummary\<close>: the token and session
  counts of the buckets of the date map add up to the grand totals.
\<close>

definition additive :: "UsageSummary \<Rightarrow> (int \<times> DateTotals) list \<Rightarrow> bool" where
  "additive summ m =
    (sum_list (map (DateTotals.inputTokens \<circ> snd) m) = UsageSummary.totalInputTokens summ
     \<and> sum_list (map (DateTotals.outputTokens \<circ> snd) m) = UsageSummary.totalOutputTokens summ
     \<and> sum_list (map (DateTotals.sessionCount \<circ> snd) m) = UsageSummary.sessionCount summ)"

text \<open>
  The sessions that the session loop counts (those with a user or assistant message), in
  the order of the loop, each with its day and its cost; the list ends at a session
  whose timestamp is no valid date, where the loop throws.
\<close>

fun countedSessions :: "env \<Rightarrow> Session list \<Rightarrow> fileIndex \<Rightarrow> (int \<times> rat) list" where
  "countedSessions e [] fileIdx = []"
| "countedSessions e (session # rest) fileIdx =
    (case getConversation e fileIdx (id' session) of
       (msgs, fileIdx') \<Rightarrow>
         (let t = fst (summaryMessageLoop msgs zeroTotals emptySummary) in
          if sessionMessageCount t > 0 then
            (case dateKey (Session.timestamp session) of
               None \<Rightarrow> []
             | Some d \<Rightarrow> (d, sessionCost t) # countedSessions e rest fileIdx')
          else countedSessions e rest fileIdx'))"

text \<open>The costs of the counted sessions of a day, in the order of the loop.\<close>

definition costsOn :: "int \<Rightarrow> (int \<times> rat) list \<Rightarrow> rat list" where
  "costsOn d counted = map snd (filter (\<lambda>x. fst x = d) counted)"

text \<open>The cost held by the date map for a day; \<open>0\<close> when the day has no bucket yet.\<close>

definition bucketCost :: "(int \<times> DateTotals) list \<Rightarrow> int \<Rightarrow> rat" where
  "bucketCost m d = (case map_of m d of Some x \<Rightarrow> DateTotals.cost x | None \<Rightarrow> 0)"

text \<open>
  The entry of the daily series for a day: the bucket of the summary, or the zero entry.
\<close>

definition dayEntry :: "(int \<rightharpoonup> DateUsage) \<Rightarrow> int \<Rightarrow> DateUsage" where
  "dayEntry dateMap d =
     (case dateMap d of
        Some x \<Rightarrow> x
      | None \<Rightarrow> \<lparr>date = d, inputTokens = 0, outputTokens = 0, cacheCreationTokens = 0,
                  cacheReadTokens = 0, cost = 0, sessionCount = 0\<rparr>)"

text \<open>The number of iterations of the loop of \<open>getDailyUsage\<close>.\<close>

definition daySteps :: "int \<Rightarrow> int \<Rightarrow> nat" where
  "daySteps endDate current =
     (if current \<le> endDate then nat ((endDate - current) div dayMs + 1) else 0)"

section \<open>A sample environment\<close>

text \<open>
  One project directory with four session logs, used to instantiate the theorems below.
  The decoder knows five texts, written \<open>U1\<close>, \<open>A1\<close>, \<open>S1\<close>, \<open>null\<close> and
  \<open>7\<close>: they stand for the JSON of a user message, of an assistant message with
  usage, of a summary, for the literal \<open>null\<close> and for a number; every other text is
  not JSON. The fourth log can be listed and stat'ed, but reading it fails.
\<close>

definition sampleUser :: ConversationMessage where
  "sampleUser = \<lparr>type = User, uuid = Some ''u1'', ConversationMessage.timestamp = Some ''2026-01-05T10:00:00.000Z'',
     message = Some \<lparr>role = ''user'', MessageBody.model = None, usage = None\<rparr>, summary = None\<rparr>"

definition sampleAssistant :: ConversationMessage where
  "sampleAssistant = \<lparr>type = Assistant, uuid = Some ''a1'',
     ConversationMessage.timestamp = Some ''2026-01-05T10:00:07.000Z'',
     message = Some \<lparr>role = ''assistant'', MessageBody.model = Some ''claude-sonnet-4-20250514'',
       usage = Some \<lparr>input_tokens = 1000000, output_tokens = 2000,
         cache_creation_input_tokens = Some 400, cache_read_input_tokens = None\<rparr>\<rparr>,
     summary = None\<rparr>"

definition sampleSummary :: ConversationMessage where
  "sampleSummary = \<lparr>type = Summary, uuid = None, ConversationMessage.timestamp = None, message = None,
     summary = Some ''Tail reads''\<rparr>"

definition sampleDecode :: "string \<Rightarrow> json_line" where
  "sampleDecode t =
     (if t = ''U1'' then JsonMessage sampleUser
      else if t = ''A1'' then JsonMessage sampleAssistant
      else if t = ''S1'' then JsonMessage sampleSummary
      else if t = ''null'' then JsonNull
      else if t = ''7'' then JsonOther
      else SyntaxError)"

definition sampleFiles :: "(string \<times> (io_error + string) \<times> rat) list" where
  "sampleFiles =
    [(''/p/-a-b/s1.jsonl'', Inr (''U1'' @ [LF] @ [LF] @ ''oops'' @ [LF] @ ''A1'' @ [LF]), 1000),
     (''/p/-a-b/s2.jsonl'', Inr (''U1'' @ [LF] @ ''A1'' @ [LF]), 2500),
     (''/p/-a-b/s3.jsonl'', Inr (''U1'' @ [LF] @ ''S1'' @ [LF]), 4000),
     (''/p/-a-b/s4.jsonl'', Inl EIO, 7000)]"

definition sampleListing :: "Dirent list" where
  "sampleListing =
     [\<lparr>name = ''s1.jsonl'', isDirectory = False\<rparr>,
      \<lparr>name = ''s2.jsonl'', isDirectory = False\<rparr>,
      \<lparr>name = ''notes.txt'', isDirectory = False\<rparr>,
      \<lparr>name = ''s3.jsonl'', isDirectory = False\<rparr>,
      \<lparr>name = ''s4.jsonl'', isDirectory = False\<rparr>]"

definition sampleEnv :: env where
  "sampleEnv = \<lparr>
     projectsDir = ''/p'',
     readdir = (\<lambda>d.
       if d = ''/p'' then Inr [\<lparr>name = ''-a-b'', isDirectory = True\<rparr>,
                              \<lparr>name = ''README'', isDirectory = False\<rparr>]
       else if d = ''/p/-a-b'' then Inr sampleListing
       else Inl ENOENT),
     stat = (\<lambda>f. case map_of sampleFiles f of
               None \<Rightarrow> Inl ENOENT
             | Some (Inl err, t) \<Rightarrow> Inr \<lparr>size_bytes = 12, mtimeMs = t\<rparr>
             | Some (Inr bytes, t) \<Rightarrow> Inr \<lparr>size_bytes = length bytes, mtimeMs = t\<rparr>),
     readFile = (\<lambda>f. case map_of sampleFiles f of
               None \<Rightarrow> Inl ENOENT
             | Some (r, t) \<Rightarrow> r),
     decode = sampleDecode\<rparr>"

text \<open>
  A second project directory with three logs: \<open>w\<close> and \<open>x\<close>, whose lines end with
  CR LF, and \<open>n\<close>, which has a \<open>null\<close> line before a malformed one.
\<close>

definition haltFiles :: "(string \<times> string) list" where
  "haltFiles =
    [(''/q/-c/w.jsonl'', ''U1'' @ [CR, LF] @ ''U1'' @ [CR, LF] @ ''oops'' @ [CR, LF]),
     (''/q/-c/n.jsonl'', ''U1'' @ [LF] @ ''null'' @ [LF] @ ''A1'' @ [LF] @ ''oops'' @ [LF]),
     (''/q/-c/x.jsonl'',
        ''U1'' @ [CR, LF] @ ''U1'' @ [CR, LF] @ ''U1'' @ [CR, LF] @ ''U1'' @ [CR, LF])]"

definition haltEnv :: env where
  "haltEnv = \<lparr>
     projectsDir = ''/q'',
     readdir = (\<lambda>d.
       if d = ''/q'' then Inr [\<lparr>name = ''-c'', isDirectory = True\<rparr>]
       else if d = ''/q/-c'' then Inr [\<lparr>name = ''w.jsonl'', isDirectory = False\<rparr>,
                                      \<lparr>name = ''n.jsonl'', isDirectory = False\<rparr>,
                                      \<lparr>name = ''x.jsonl'', isDirectory = False\<rparr>]
       else Inl ENOENT),
     stat = (\<lambda>f. case map_of haltFiles f of
               None \<Rightarrow> Inl ENOENT
             | Some bytes \<Rightarrow> Inr \<lparr>size_bytes = length bytes, mtimeMs = 1000\<rparr>),
     readFile = (\<lambda>f. case map_of haltFiles f of
               None \<Rightarrow> Inl ENOENT
             | Some bytes \<Rightarrow> Inr bytes),
     decode = sampleDecode\<rparr>"

text \<open>
  A third project directory with three logs of one assistant message each, of 100000,
  300000 and 200000 input tokens at the rate of 1 per million: the sessions cost the
  doubles nearest to 0.1, 0.3 and 0.2. The first session is of one day, the other two
  of the day before.
\<close>

definition costMessage :: "int \<Rightarrow> ConversationMessage" where
  "costMessage n = \<lparr>type = Assistant, uuid = None, ConversationMessage.timestamp = None,
     message = Some \<lparr>role = ''assistant'', MessageBody.model = Some ''claude-haiku-4-5-20251101'',
       usage = Some \<lparr>input_tokens = n, output_tokens = 0,
         cache_creation_input_tokens = None, cache_read_input_tokens = None\<rparr>\<rparr>,
     summary = None\<rparr>"

definition costDecode :: "string \<Rightarrow> json_line" where
  "costDecode t =
     (if t = ''A100'' then JsonMessage (costMessage 100000)
      else if t = ''A300'' then JsonMessage (costMessage 300000)
      else if t = ''A200'' then JsonMessage (costMessage 200000)
      else SyntaxError)"

definition costFiles :: "(string \<times> string) list" where
  "costFiles =
    [(''/r/-d/c1.jsonl'', ''A100'' @ [LF]),
     (''/r/-d/c2.jsonl'', ''A300'' @ [LF]),
     (''/r/-d/c3.jsonl'', ''A200'' @ [LF])]"

definition costEnv :: env where
  "costEnv = \<lparr>
     projectsDir = ''/r'',
     readdir = (\<lambda>d.
       if d = ''/r'' then Inr [\<lparr>name = ''-d'', isDirectory = True\<rparr>]
       else if d = ''/r/-d'' then Inr [\<lparr>name = ''c1.jsonl'', isDirectory = False\<rparr>,
                                      \<lparr>name = ''c2.jsonl'', isDirectory = False\<rparr>,
                                      \<lparr>name = ''c3.jsonl'', isDirectory = False\<rparr>]
       else Inl ENOENT),
     stat = (\<lambda>f. case map_of costFiles f of
               None \<Rightarrow> Inl ENOENT
             | Some bytes \<Rightarrow> Inr \<lparr>size_bytes = length bytes, mtimeMs = 1000\<rparr>),
     readFile = (\<lambda>f. case map_of costFiles f of
               None \<Rightarrow> Inl ENOENT
             | Some bytes \<Rightarrow> Inr bytes),
     decode = costDecode\<rparr>"

definition costSessions :: "Session list" where
  "costSessions =
    [\<lparr>id' = ''c1'', display = ''One'', timestamp = 1767866400000,
       project = ''/d'', projectName = ''d''\<rparr>,
     \<lparr>id' = ''c2'', display = ''Two'', timestamp = 1767780000000,
       project = ''/d'', projectName = ''d''\<rparr>,
     \<lparr>id' = ''c3'', display = ''Three'', timestamp = 1767776400000,
       project = ''/d'', projectName = ''d''\<rparr>]"

text \<open>The sessions of the sample environment, as \<open>getSessions()\<close> would list them.\<close>

definition sampleSessions :: "Session list" where
  "sampleSessions =
    [\<lparr>id' = ''s3'', display = ''Tail reads'', timestamp = 1767780000000,
       project = ''/a/b'', projectName = ''b''\<rparr>,
     \<lparr>id' = ''s2'', display = ''Price a session'', timestamp = 1767607200000,
       project = ''/a/b'', projectName = ''b''\<rparr>,
     \<lparr>id' = ''s1'', display = ''Read a log'', timestamp = 1767600000000,
       project = ''/a/b'', projectName = ''b''\<rparr>,
     \<lparr>id' = ''s4'', display = ''Unreadable'', timestamp = 1767520000000,
       project = ''/a/b'', projectName = ''b''\<rparr>]"

text \<open>
  Two history entries without a session id: one for the sample project, one for a project
  that has no directory.
\<close>

definition sampleEntry :: HistoryEntry where
  "sampleEntry = \<lparr>HistoryEntry.display = ''Price a session'', timestamp = 2400,
     project = ''/a/b'', sessionId = None\<rparr>"

definition sampleLostEntry :: HistoryEntry where
  "sampleLostEntry = \<lparr>HistoryEntry.display = ''Gone'', timestamp = 2400,
     project = ''/x.y'', sessionId = None\<rparr>"

section \<open>Properties of the pricing resolver\<close>




section \<open>Evaluating the sample environment\<close>

lemmas sample_simps = sampleEnv_def sampleListing_def sampleFiles_def sampleDecode_def sampleUser_def
  sampleAssistant_def sampleSummary_def findSessionFile_def getConversation_def
  getConversationStream_def join_def Let_def LF_def CR_def trim_def isSpace_def trimJson_def
  isJsonSpace_def JSON_parse_def consumable_def lineBytesOf_def haltEnv_def haltFiles_def

section \<open>Properties of the incremental read\<close>


lemma LF_neq_CR: "LF \<noteq> CR"
  by (simp add: LF_def CR_def)

lemma rlLines_Nil: "rlLines [] = []"
  by simp

lemma rlLines_LF: "rlLines (LF # cs) = [] # rlLines cs"
  by (cases cs) (simp_all add: LF_neq_CR)


lemma rlLines_char:
  "c \<noteq> LF \<Longrightarrow> c \<noteq> CR \<Longrightarrow>
   rlLines (c # cs) = (case rlLines cs of [] \<Rightarrow> [[c]] | l # ls \<Rightarrow> (c # l) # ls)"
  by (cases cs) simp_all

lemma rlLines_line_LF:
  "LF \<notin> set l \<Longrightarrow> CR \<notin> set l \<Longrightarrow> rlLines (l @ LF # s) = l # rlLines s"
proof (induction l)
  case Nil
  then show ?case by (simp only: append_Nil rlLines_LF)
next
  case (Cons c l)
  then have c: "c \<noteq> LF" "c \<noteq> CR" and l: "rlLines (l @ LF # s) = l # rlLines s" by auto
  have "rlLines ((c # l) @ LF # s) = rlLines (c # (l @ LF # s))" by simp
  also have "\<dots> = (c # l) # rlLines s" by (simp only: rlLines_char [OF c] l list.case)
  finally show ?case .
qed





text \<open>Stripping the characters that satisfy \<open>P\<close> from both ends of a text.\<close>

lemma strip_Nil_iff:
  "rev (dropWhile P (rev (dropWhile P s))) = [] \<longleftrightarrow> (\<forall>c \<in> set s. P c)"
proof
  assume a: "rev (dropWhile P (rev (dropWhile P s))) = []"
  show "\<forall>c \<in> set s. P c"
  proof (cases "dropWhile P s")
    case Nil
    then show ?thesis by (simp add: dropWhile_eq_Nil_conv)
  next
    case (Cons x xs)
    then have "\<not> P x" using hd_dropWhile [of P s] by simp
    with Cons have "dropWhile P (rev (dropWhile P s)) \<noteq> []"
      by (simp add: dropWhile_append)
    with a show ?thesis by simp
  qed
next
  assume "\<forall>c \<in> set s. P c"
  then have d: "dropWhile P s = []" by (simp add: dropWhile_eq_Nil_conv)
  show "rev (dropWhile P (rev (dropWhile P s))) = []" unfolding d by simp
qed






lemma trim_Nil_iff: "trim l = [] \<longleftrightarrow> (\<forall>c \<in> set l. isSpace c)"
  unfolding trim_def by (rule strip_Nil_iff)

lemma JSON_parse_blank: "trim l = [] \<Longrightarrow> JSON_parse e l = SyntaxError"
proof -
  assume "trim l = []"
  then have all: "\<forall>c \<in> set l. isSpace c" by (simp only: trim_Nil_iff)
  have sub: "set (trimJson l) \<subseteq> set l"
  proof
    fix x
    assume "x \<in> set (trimJson l)"
    then have "x \<in> set (dropWhile isJsonSpace (rev (dropWhile isJsonSpace l)))"
      by (simp add: trimJson_def)
    then have "x \<in> set (rev (dropWhile isJsonSpace l))" by (rule set_dropWhileD)
    then have "x \<in> set (dropWhile isJsonSpace l)" by simp
    then show "x \<in> set l" by (rule set_dropWhileD)
  qed
  show ?thesis
  proof (cases "trimJson l = []")
    case True
    then show ?thesis by (simp add: JSON_parse_def)
  next
    case False
    then have "hd (trimJson l) \<in> set l" using sub by auto
    with all have "isSpace (hd (trimJson l))" by blast
    then show ?thesis by (simp add: JSON_parse_def)
  qed
qed






lemma findSessionFile_stable:
  "findSessionFile e idx sid = (Some p, idx') \<Longrightarrow> findSessionFile e idx' sid = (Some p, idx')"
  by (auto simp: findSessionFile_def Let_def split: option.splits sum.splits)


lemma stream_index:
  "findSessionFile e idx sid = (r, idx') \<Longrightarrow> snd (getConversationStream e idx sid off) = idx'"
  by (auto simp: getConversationStream_def Let_def split: sum.splits prod.splits option.splits)

lemma stream_nondecreasing:
  "findSessionFile e idx sid = (Some p, idx') \<Longrightarrow> p \<noteq> [] \<Longrightarrow>
   off \<le> nextOffset (fst (getConversationStream e idx sid off))"
  by (auto simp: getConversationStream_def Let_def split: sum.splits prod.splits)

lemma chainOffset_mono:
  "findSessionFile e idx sid = (Some p, idx') \<Longrightarrow> p \<noteq> [] \<Longrightarrow>
   chainOffset e idx sid off n \<le> chainOffset e idx sid off (Suc n)"
proof (induction n arbitrary: idx idx' off)
  case 0
  from stream_nondecreasing [OF 0, of off] show ?case
    by (cases "getConversationStream e idx sid off") simp
next
  case (Suc n)
  obtain r i where r: "getConversationStream e idx sid off = (r, i)"
    by (cases "getConversationStream e idx sid off")
  with stream_index [OF Suc.prems(1), of off] have i: "i = idx'" by simp
  from findSessionFile_stable [OF Suc.prems(1)]
  have st: "findSessionFile e idx' sid = (Some p, idx')" .
  from Suc.IH [OF st Suc.prems(2), of "nextOffset r"] r i
  show ?case by simp
qed

lemma findSessionFile_None:
  "findSessionFile e idx sid = (None, idx') \<Longrightarrow> idx' = idx"
  by (auto simp: findSessionFile_def Let_def split: option.splits sum.splits)

lemma findSessionFile_idempotent:
  "findSessionFile e idx sid = (r, idx') \<Longrightarrow> findSessionFile e idx' sid = (r, idx')"
proof (cases r)
  case None
  assume f: "findSessionFile e idx sid = (r, idx')"
  with None findSessionFile_None [of e idx sid idx'] show ?thesis by simp
next
  case (Some p)
  assume "findSessionFile e idx sid = (r, idx')"
  with Some findSessionFile_stable [of e idx sid p idx'] show ?thesis by simp
qed

lemma stream_unresolved:
  "findSessionFile e idx sid = (r, idx') \<Longrightarrow> r = None \<or> r = Some [] \<Longrightarrow>
   getConversationStream e idx sid off = (\<lparr>messages = [], nextOffset = 0\<rparr>, idx')"
  by (auto simp: getConversationStream_def)

lemma chainOffset_unresolved:
  "findSessionFile e idx sid = (r, idx') \<Longrightarrow> r = None \<or> r = Some [] \<Longrightarrow>
   chainOffset e idx sid 0 n = 0"
proof (induction n arbitrary: idx)
  case 0
  then show ?case by simp
next
  case (Suc n)
  from stream_unresolved [OF Suc.prems, of 0]
  have "chainOffset e idx sid 0 (Suc n) = chainOffset e idx' sid 0 n" by simp
  also from Suc.IH [OF findSessionFile_idempotent [OF Suc.prems(1)] Suc.prems(2)]
  have "\<dots> = 0" .
  finally show ?case .
qed

lemma chainOffset_from_zero:
  "chainOffset e idx sid 0 n \<le> chainOffset e idx sid 0 (Suc n)"
proof -
  obtain r idx' where f: "findSessionFile e idx sid = (r, idx')"
    by (cases "findSessionFile e idx sid")
  show ?thesis
  proof (cases "r = None \<or> r = Some []")
    case True
    from chainOffset_unresolved [OF f True, of n] show ?thesis by simp
  next
    case False
    then obtain p where "r = Some p" "p \<noteq> []" by (cases r) auto
    with f chainOffset_mono [of e idx sid p idx' 0 n] show ?thesis by simp
  qed
qed

text \<open>
  A session id that resolves to no file, read at offset 5: the returned offset is 0.
\<close>

theorem stream_offset_unresolved_counterexample:
  "fst (findSessionFile sampleEnv Map.empty ''nope'') = None
   \<and> fst (getConversationStream sampleEnv Map.empty ''nope'' 5)
        = \<lparr>messages = [], nextOffset = 0\<rparr>
   \<and> \<not> (5 \<le> nextOffset (fst (getConversationStream sampleEnv Map.empty ''nope'' 5)))"
  by (simp add: sample_simps)

text \<open>
  Claim C4, as the code has it. For a session id that resolves to no file, the call
  returns no messages and the offset 0, whatever the requested offset. For a session id
  that resolves to a file, the returned offset is at least the requested one and the
  offsets of chained calls never decrease; and when the size of the file can be read, a
  call at or beyond the file size returns no messages and the unchanged offset, and
  otherwise the returned offset is at most the file size. For every session id, the
  offsets of chained calls started at offset 0 never decrease.
\<close>

theorem stream_offset_bounds:
  "(fst (findSessionFile e idx sid) = None \<longrightarrow>
      fst (getConversationStream e idx sid fromOffset) = \<lparr>messages = [], nextOffset = 0\<rparr>)
   \<and> (findSessionFile e idx sid = (Some p, idx') \<and> p \<noteq> [] \<longrightarrow>
        fromOffset \<le> nextOffset (fst (getConversationStream e idx sid fromOffset))
      \<and> chainOffset e idx sid fromOffset n \<le> chainOffset e idx sid fromOffset (Suc n)
      \<and> (stat e p = Inr st \<longrightarrow>
           (size_bytes st \<le> fromOffset \<longrightarrow>
              fst (getConversationStream e idx sid fromOffset)
                = \<lparr>messages = [], nextOffset = fromOffset\<rparr>)
         \<and> (fromOffset < size_bytes st \<longrightarrow>
              nextOffset (fst (getConversationStream e idx sid fromOffset)) \<le> size_bytes st)))
   \<and> chainOffset e idx sid 0 n \<le> chainOffset e idx sid 0 (Suc n)"
proof -
  have a: "fst (getConversationStream e idx sid fromOffset) = \<lparr>messages = [], nextOffset = 0\<rparr>"
    if "fst (findSessionFile e idx sid) = None"
    using that stream_unresolved [of e idx sid None "snd (findSessionFile e idx sid)" fromOffset]
    by (cases "findSessionFile e idx sid") simp
  have b: "fromOffset \<le> nextOffset (fst (getConversationStream e idx sid fromOffset))
      \<and> chainOffset e idx sid fromOffset n \<le> chainOffset e idx sid fromOffset (Suc n)
      \<and> (stat e p = Inr st \<longrightarrow>
           (size_bytes st \<le> fromOffset \<longrightarrow>
              fst (getConversationStream e idx sid fromOffset)
                = \<lparr>messages = [], nextOffset = fromOffset\<rparr>)
         \<and> (fromOffset < size_bytes st \<longrightarrow>
              nextOffset (fst (getConversationStream e idx sid fromOffset)) \<le> size_bytes st))"
    if r: "findSessionFile e idx sid = (Some p, idx') \<and> p \<noteq> []"
  proof -
    from r have res: "findSessionFile e idx sid = (Some p, idx')" and p: "p \<noteq> []" by simp_all
    have sized: "(size_bytes st \<le> fromOffset \<longrightarrow>
              fst (getConversationStream e idx sid fromOffset)
                = \<lparr>messages = [], nextOffset = fromOffset\<rparr>)
         \<and> (fromOffset < size_bytes st \<longrightarrow>
              nextOffset (fst (getConversationStream e idx sid fromOffset)) \<le> size_bytes st)"
      if "stat e p = Inr st"
      using that res p
      by (auto simp: getConversationStream_def Let_def split: sum.splits prod.splits)
    from stream_nondecreasing [OF res p, of fromOffset] chainOffset_mono [OF res p, of fromOffset n]
      sized show ?thesis by blast
  qed
  from a b chainOffset_from_zero [of e idx sid n] show ?thesis by blast
qed

theorem stream_offset_bounds_witness:
  "fst (getConversationStream sampleEnv Map.empty ''nope'' 5) = \<lparr>messages = [], nextOffset = 0\<rparr>
   \<and> fst (getConversationStream sampleEnv Map.empty ''s1'' 12)
     = \<lparr>messages = [], nextOffset = 12\<rparr>
   \<and> (4::nat) \<le> nextOffset (fst (getConversationStream sampleEnv Map.empty ''s1'' 4))
   \<and> nextOffset (fst (getConversationStream sampleEnv Map.empty ''s1'' 4)) \<le> 12"
proof -
  have none: "fst (findSessionFile sampleEnv Map.empty ''nope'') = None"
    by (simp add: sample_simps)
  have res: "findSessionFile sampleEnv Map.empty ''s1''
     = (Some ''/p/-a-b/s1.jsonl'', [''s1'' \<mapsto> ''/p/-a-b/s1.jsonl''])
     \<and> ''/p/-a-b/s1.jsonl'' \<noteq> []"
    by (simp add: sample_simps)
  have st: "stat sampleEnv ''/p/-a-b/s1.jsonl'' = Inr \<lparr>size_bytes = 12, mtimeMs = 1000\<rparr>"
    by (simp add: sample_simps)
  from stream_offset_bounds [of sampleEnv Map.empty "''nope''" 5] none
  have a: "fst (getConversationStream sampleEnv Map.empty ''nope'' 5)
             = \<lparr>messages = [], nextOffset = 0\<rparr>"
    by blast
  from stream_offset_bounds [of sampleEnv Map.empty "''s1''" 12 "''/p/-a-b/s1.jsonl''"
      "[''s1'' \<mapsto> ''/p/-a-b/s1.jsonl'']" 0 "\<lparr>size_bytes = 12, mtimeMs = 1000\<rparr>"] res st
  have b: "fst (getConversationStream sampleEnv Map.empty ''s1'' 12)
     = \<lparr>messages = [], nextOffset = 12\<rparr>"
    by simp
  from stream_offset_bounds [of sampleEnv Map.empty "''s1''" 4 "''/p/-a-b/s1.jsonl''"
      "[''s1'' \<mapsto> ''/p/-a-b/s1.jsonl'']" 0 "\<lparr>size_bytes = 12, mtimeMs = 1000\<rparr>"] res st
  have c: "(4::nat) \<le> nextOffset (fst (getConversationStream sampleEnv Map.empty ''s1'' 4))
   \<and> nextOffset (fst (getConversationStream sampleEnv Map.empty ''s1'' 4)) \<le> 12"
    by simp
  from a b c show ?thesis by simp
qed




section \<open>Read failures\<close>

text \<open>
  A resolved log whose read fails with an I/O error: both read modes return the empty
  result.
\<close>

theorem read_failure_counterexample:
  "fst (findSessionFile sampleEnv Map.empty ''s4'') = Some ''/p/-a-b/s4.jsonl''
   \<and> readFile sampleEnv ''/p/-a-b/s4.jsonl'' = Inl EIO
   \<and> fst (getConversation sampleEnv Map.empty ''s4'') = []
   \<and> fst (getConversationStream sampleEnv Map.empty ''s4'' 0)
        = \<lparr>messages = [], nextOffset = 0\<rparr>"
  by (simp add: sample_simps)

text \<open>
  Claim C8, as the code has it. For a session that resolves to a file, any failure of
  the read, whatever the error, gives the empty result instead of an error: the full
  read returns no messages, and the incremental read (also when the stat fails) returns
  no messages and the unchanged offset.
\<close>

theorem read_failure_degrades_to_empty:
  assumes "findSessionFile e idx sid = (Some p, idx')" and "p \<noteq> []"
  shows "(readFile e p = Inl err \<longrightarrow> getConversation e idx sid = ([], idx'))
       \<and> (stat e p = Inl err \<or> readFile e p = Inl err \<longrightarrow>
            getConversationStream e idx sid fromOffset
              = (\<lparr>messages = [], nextOffset = fromOffset\<rparr>, idx'))"
  using assms
  by (auto simp: getConversation_def getConversationStream_def Let_def split: sum.splits)

theorem read_failure_degrades_to_empty_witness:
  "readFile sampleEnv ''/p/-a-b/s4.jsonl'' = Inl EIO
   \<and> getConversation sampleEnv Map.empty ''s4'' = ([], [''s4'' \<mapsto> ''/p/-a-b/s4.jsonl''])
   \<and> getConversationStream sampleEnv Map.empty ''s4'' 3
        = (\<lparr>messages = [], nextOffset = 3\<rparr>, [''s4'' \<mapsto> ''/p/-a-b/s4.jsonl''])"
proof -
  have res: "findSessionFile sampleEnv Map.empty ''s4''
     = (Some ''/p/-a-b/s4.jsonl'', [''s4'' \<mapsto> ''/p/-a-b/s4.jsonl''])"
    by (simp add: sample_simps)
  have p: "''/p/-a-b/s4.jsonl'' \<noteq> []" by simp
  have rd: "readFile sampleEnv ''/p/-a-b/s4.jsonl'' = Inl EIO"
    by (simp add: sample_simps)
  from read_failure_degrades_to_empty [OF res p, of EIO 3] rd
  show ?thesis by simp
qed

section \<open>Full read and chained incremental reads\<close>




lemma trim_Nil: "trim [] = []"
  by (simp add: trim_def)

lemma isSpace_LF: "isSpace LF"
  by (simp add: isSpace_def LF_def)








lemma lines_filter_nonempty:
  assumes "g [] = []"
  shows "concat (map g (filter (\<lambda>l. l \<noteq> []) ls)) = concat (map g ls)"
  using assms by (induction ls) auto

















lemma transcriptOf_Nil: "transcriptOf e [] = []"
  by (simp add: JSON_parse_blank trim_Nil)

lemma summaryOf_Nil: "summaryOf e [] = []"
  by (simp add: JSON_parse_blank trim_Nil)

lemma readLoop_eq:
  "readLoop e ls msgs
     = rev (concat (map (summaryOf e) ls)) @ msgs @ concat (map (transcriptOf e) ls)"
proof (induction ls arbitrary: msgs)
  case Nil
  then show ?case by simp
next
  case (Cons l ls)
  show ?case
  proof (cases "JSON_parse e l")
    case (JsonMessage msg)
    then show ?thesis using Cons [of "msgs @ [msg]"] Cons [of "msg # msgs"] Cons [of msgs]
      by simp
  qed (use Cons [of msgs] in simp_all)
qed














text \<open>
  A log of four user messages whose lines end with CR LF. The first incremental read
  counts three bytes for each line of four and returns the offset 12, where the fourth
  line starts: the chain returns the fourth message a second time, five messages where
  the full read returns four.
\<close>

lemma stream_chain_crlf:
  "readFile haltEnv ''/q/-c/x.jsonl''
     = Inr (''U1'' @ [CR, LF] @ ''U1'' @ [CR, LF] @ ''U1'' @ [CR, LF] @ ''U1'' @ [CR, LF])
   \<and> fst (getConversationStream haltEnv Map.empty ''x'' 0)
       = \<lparr>messages = [sampleUser, sampleUser, sampleUser, sampleUser], nextOffset = 12\<rparr>
   \<and> fst (getConversationStream haltEnv Map.empty ''x'' 12)
       = \<lparr>messages = [sampleUser], nextOffset = 15\<rparr>
   \<and> fst (getConversationStream haltEnv Map.empty ''x'' 15)
       = \<lparr>messages = [], nextOffset = 16\<rparr>
   \<and> streamChain haltEnv Map.empty ''x'' 0 (Suc (Suc (Suc 0)))
       = [sampleUser, sampleUser, sampleUser, sampleUser, sampleUser]
   \<and> fst (getConversation haltEnv Map.empty ''x'')
       = [sampleUser, sampleUser, sampleUser, sampleUser]"
  by (simp add: sample_simps)

section \<open>Per-session usage\<close>

lemma usageLoop_no_usage:
  "\<forall>m \<in> set msgs. \<not> (type m = Assistant \<and> messageUsage m \<noteq> None) \<Longrightarrow>
   SessionUsage.totalInputTokens (usageLoop msgs acc) = SessionUsage.totalInputTokens acc
   \<and> SessionUsage.totalOutputTokens (usageLoop msgs acc) = SessionUsage.totalOutputTokens acc
   \<and> SessionUsage.cacheCreationTokens (usageLoop msgs acc) = SessionUsage.cacheCreationTokens acc
   \<and> SessionUsage.cacheReadTokens (usageLoop msgs acc) = SessionUsage.cacheReadTokens acc
   \<and> estimatedCost (usageLoop msgs acc) = estimatedCost acc
   \<and> SessionUsage.model (usageLoop msgs acc) = SessionUsage.model acc"
proof (induction msgs arbitrary: acc)
  case Nil
  then show ?case by simp
next
  case (Cons m msgs)
  from Cons.prems have m: "\<not> (type m = Assistant \<and> messageUsage m \<noteq> None)"
    and rest: "\<forall>m \<in> set msgs. \<not> (type m = Assistant \<and> messageUsage m \<noteq> None)"
    by simp_all
  from m Cons.IH [OF rest] show ?case
    by (cases "messageUsage m") (simp_all add: Let_def)
qed

lemma conversation_empty_cases:
  "(fst (findSessionFile e idx sid) = None \<longrightarrow> fst (getConversation e idx sid) = [])
   \<and> (fst (findSessionFile e idx sid) = Some p \<and> readFile e p = Inl err
        \<longrightarrow> fst (getConversation e idx sid) = [])
   \<and> (fst (findSessionFile e idx sid) = Some p \<and> readFile e p = Inr content
        \<and> (\<forall>l \<in> set (splitLF (trim content)). transcriptOf e l = [] \<and> summaryOf e l = [])
        \<longrightarrow> fst (getConversation e idx sid) = [])"
proof -
  have a: "fst (getConversation e idx sid) = []" if "fst (findSessionFile e idx sid) = None"
    using that by (cases "findSessionFile e idx sid") (simp add: getConversation_def)
  have b: "fst (getConversation e idx sid) = []"
    if "fst (findSessionFile e idx sid) = Some p \<and> readFile e p = Inl err"
    using that by (cases "findSessionFile e idx sid") (simp add: getConversation_def)
  have c: "fst (getConversation e idx sid) = []"
    if h: "fst (findSessionFile e idx sid) = Some p \<and> readFile e p = Inr content
        \<and> (\<forall>l \<in> set (splitLF (trim content)). transcriptOf e l = [] \<and> summaryOf e l = [])"
  proof -
    from h have t: "concat (map (transcriptOf e) (splitLF (trim content))) = []"
      and s: "concat (map (summaryOf e) (splitLF (trim content))) = []"
      by simp_all
    have "readLoop e (filter (\<lambda>l. l \<noteq> []) (splitLF (trim content))) [] = []"
      by (simp only: readLoop_eq lines_filter_nonempty [of "transcriptOf e", OF transcriptOf_Nil]
          lines_filter_nonempty [of "summaryOf e", OF summaryOf_Nil] t s rev.simps append_Nil)
    with h show ?thesis
      by (cases "findSessionFile e idx sid") (simp add: getConversation_def)
  qed
  from a b c show ?thesis by blast
qed

lemma session_usage_core:
  "(fst (getSessionUsage e idx sessions sid) = None
      \<longleftrightarrow> fst (getConversation e idx sid) = [])
   \<and> (fst (getConversation e idx sid) \<noteq> []
       \<and> (\<forall>m \<in> set (fst (getConversation e idx sid)).
              \<not> (type m = Assistant \<and> messageUsage m \<noteq> None))
      \<longrightarrow> (\<exists>u. fst (getSessionUsage e idx sessions sid) = Some u
              \<and> SessionUsage.totalInputTokens u = 0
              \<and> SessionUsage.totalOutputTokens u = 0
              \<and> SessionUsage.cacheCreationTokens u = 0
              \<and> SessionUsage.cacheReadTokens u = 0
              \<and> estimatedCost u = 0
              \<and> SessionUsage.model u = ''Unknown''))"
proof -
  obtain msgs idx' where g: "getConversation e idx sid = (msgs, idx')"
    by (cases "getConversation e idx sid")
  show ?thesis
  proof (cases "msgs = []")
    case True
    with g show ?thesis by (simp add: getSessionUsage_def)
  next
    case False
    with g show ?thesis
      using usageLoop_no_usage [of msgs]
      by (simp add: getSessionUsage_def Let_def)
  qed
qed

text \<open>
  Claim C10. \<open>getSessionUsage\<close> returns null exactly when the full read of the session
  is empty, which is the case for a session id that resolves to no file, for a file
  whose read fails, and for a file none of whose lines (the lines of the trimmed content,
  which are the lines the full read parses) is a user, assistant or summary message;
  when the full read is not empty and no assistant message carries usage, it returns a
  record whose token totals and estimated cost are zero and whose model is "Unknown".
\<close>

theorem session_usage_null_iff_empty:
  "(fst (getSessionUsage e idx sessions sid) = None
      \<longleftrightarrow> fst (getConversation e idx sid) = [])
   \<and> (fst (getConversation e idx sid) \<noteq> []
       \<and> (\<forall>m \<in> set (fst (getConversation e idx sid)).
              \<not> (type m = Assistant \<and> messageUsage m \<noteq> None))
      \<longrightarrow> (\<exists>u. fst (getSessionUsage e idx sessions sid) = Some u
              \<and> SessionUsage.totalInputTokens u = 0
              \<and> SessionUsage.totalOutputTokens u = 0
              \<and> SessionUsage.cacheCreationTokens u = 0
              \<and> SessionUsage.cacheReadTokens u = 0
              \<and> estimatedCost u = 0
              \<and> SessionUsage.model u = ''Unknown''))
   \<and> (fst (findSessionFile e idx sid) = None
      \<longrightarrow> fst (getSessionUsage e idx sessions sid) = None)
   \<and> (fst (findSessionFile e idx sid) = Some p \<and> readFile e p = Inl err
      \<longrightarrow> fst (getSessionUsage e idx sessions sid) = None)
   \<and> (fst (findSessionFile e idx sid) = Some p \<and> readFile e p = Inr content
        \<and> (\<forall>l \<in> set (splitLF (trim content)). transcriptOf e l = [] \<and> summaryOf e l = [])
      \<longrightarrow> fst (getSessionUsage e idx sessions sid) = None)"
  using session_usage_core [of e idx sessions sid]
    conversation_empty_cases [of e idx sid p err content]
  by blast

theorem session_usage_null_iff_empty_witness:
  "fst (getConversation sampleEnv Map.empty ''s3'') = [sampleSummary, sampleUser]
   \<and> (\<exists>u. fst (getSessionUsage sampleEnv Map.empty sampleSessions ''s3'') = Some u
         \<and> SessionUsage.totalInputTokens u = 0
         \<and> SessionUsage.totalOutputTokens u = 0
         \<and> SessionUsage.cacheCreationTokens u = 0
         \<and> SessionUsage.cacheReadTokens u = 0
         \<and> estimatedCost u = 0
         \<and> SessionUsage.model u = ''Unknown'')
   \<and> fst (getConversation sampleEnv Map.empty ''s4'') = []
   \<and> fst (getSessionUsage sampleEnv Map.empty sampleSessions ''s4'') = None"
proof -
  have full: "fst (getConversation sampleEnv Map.empty ''s3'') = [sampleSummary, sampleUser]"
    by (simp add: sample_simps)
  have none: "\<forall>m \<in> set (fst (getConversation sampleEnv Map.empty ''s3'')).
                \<not> (type m = Assistant \<and> messageUsage m \<noteq> None)"
    by (simp add: full) (simp add: sampleSummary_def sampleUser_def)
  have empty: "fst (getConversation sampleEnv Map.empty ''s4'') = []"
    by (simp add: sample_simps)
  from session_usage_null_iff_empty [of sampleEnv Map.empty sampleSessions "''s3''"]
    session_usage_null_iff_empty [of sampleEnv Map.empty sampleSessions "''s4''"]
    full none empty
  show ?thesis by simp
qed

section \<open>Additivity of the usage summary\<close>

lemma update_sum:
  fixes g :: "'v \<Rightarrow> 'a::comm_monoid_add"
  shows "sum_list (map (g \<circ> snd) (AList.update k v m))
           + (case map_of m k of None \<Rightarrow> 0 | Some x \<Rightarrow> g x)
         = sum_list (map (g \<circ> snd) m) + g v"
  by (induction m) (auto simp: ac_simps)

lemma update_sum_delta:
  fixes g :: "'v \<Rightarrow> 'a::cancel_comm_monoid_add"
  assumes "g v = (case map_of m k of None \<Rightarrow> 0 | Some x \<Rightarrow> g x) + delta"
  shows "sum_list (map (g \<circ> snd) (AList.update k v m)) = sum_list (map (g \<circ> snd) m) + delta"
proof -
  let ?old = "case map_of m k of None \<Rightarrow> 0 | Some x \<Rightarrow> g x"
  have "sum_list (map (g \<circ> snd) (AList.update k v m)) + ?old
          = (sum_list (map (g \<circ> snd) m) + delta) + ?old"
    using update_sum [of g k v m] assms by (simp add: ac_simps)
  then show ?thesis by (rule add_right_imp_eq)
qed

lemma sum_list_insort_key:
  fixes f :: "'b \<Rightarrow> 'a::comm_monoid_add"
  shows "sum_list (map f (insort_key k x xs)) = f x + sum_list (map f xs)"
  by (induction xs) (auto simp: ac_simps)

lemma sum_list_sort_key:
  fixes f :: "'b \<Rightarrow> 'a::comm_monoid_add"
  shows "sum_list (map f (sort_key k xs)) = sum_list (map f xs)"
  by (induction xs) (auto simp: sum_list_insort_key)

lemma bumpDate_inputTokens:
  "sum_list (map (DateTotals.inputTokens \<circ> snd) (bumpDate d t m))
     = sum_list (map (DateTotals.inputTokens \<circ> snd) m) + sessionInputTokens t"
  unfolding bumpDate_def Let_def
  by (rule update_sum_delta) (simp split: option.splits)

lemma bumpDate_outputTokens:
  "sum_list (map (DateTotals.outputTokens \<circ> snd) (bumpDate d t m))
     = sum_list (map (DateTotals.outputTokens \<circ> snd) m) + sessionOutputTokens t"
  unfolding bumpDate_def Let_def
  by (rule update_sum_delta) (simp split: option.splits)

lemma bumpDate_sessionCount:
  "sum_list (map (DateTotals.sessionCount \<circ> snd) (bumpDate d t m))
     = sum_list (map (DateTotals.sessionCount \<circ> snd) m) + 1"
  unfolding bumpDate_def Let_def
  by (rule update_sum_delta) (simp split: option.splits)

lemma summaryMessageLoop_totals:
  "summaryMessageLoop msgs t summ = (t', summ') \<Longrightarrow>
   UsageSummary.totalInputTokens summ' = UsageSummary.totalInputTokens summ
   \<and> UsageSummary.totalOutputTokens summ' = UsageSummary.totalOutputTokens summ
   \<and> totalEstimatedCost summ' = totalEstimatedCost summ
   \<and> UsageSummary.sessionCount summ' = UsageSummary.sessionCount summ"
proof (induction msgs arbitrary: t summ)
  case Nil
  then show ?case by simp
next
  case (Cons m msgs)
  then show ?case
    by (auto simp: Let_def split: option.splits if_splits prod.splits)
qed

lemma sessionLoop_additive:
  "sessionLoop e ss summ m idx = Some (summ', m', idx') \<Longrightarrow> additive summ m \<Longrightarrow>
   additive summ' m'"
proof (induction ss arbitrary: summ m idx)
  case Nil
  then show ?case by simp
next
  case (Cons s ss)
  obtain msgs idx1 where g: "getConversation e idx (id' s) = (msgs, idx1)"
    by (cases "getConversation e idx (id' s)")
  obtain t summ1 where l: "summaryMessageLoop msgs zeroTotals summ = (t, summ1)"
    by (cases "summaryMessageLoop msgs zeroTotals summ")
  note keep = summaryMessageLoop_totals [OF l]
  show ?case
  proof (cases "sessionMessageCount t > 0")
    case False
    with Cons.prems g l have "sessionLoop e ss summ1 m idx1 = Some (summ', m', idx')"
      by simp
    moreover from Cons.prems(2) keep have "additive summ1 m" by (simp add: additive_def)
    ultimately show ?thesis by (rule Cons.IH)
  next
    case True
    with Cons.prems g l obtain d where d: "dateKey (Session.timestamp s) = Some d"
      by (cases "dateKey (Session.timestamp s)") auto
    let ?summ2 = "summ1\<lparr>
        UsageSummary.sessionCount := UsageSummary.sessionCount summ1 + 1,
        UsageSummary.messageCount := UsageSummary.messageCount summ1 + sessionMessageCount t,
        UsageSummary.totalInputTokens :=
          UsageSummary.totalInputTokens summ1 + sessionInputTokens t,
        UsageSummary.totalOutputTokens :=
          UsageSummary.totalOutputTokens summ1 + sessionOutputTokens t,
        totalEstimatedCost := dadd (totalEstimatedCost summ1) (sessionCost t),
        byProject := bumpProject s t (byProject summ1)\<rparr>"
    from Cons.prems g l True d
    have "sessionLoop e ss ?summ2 (bumpDate d t m) idx1 = Some (summ', m', idx')"
      by simp
    moreover from Cons.prems(2) keep have "additive ?summ2 (bumpDate d t m)"
      by (simp add: additive_def bumpDate_inputTokens bumpDate_outputTokens
          bumpDate_sessionCount)
    ultimately show ?thesis by (rule Cons.IH)
  qed
qed

text \<open>The session totals of a log do not depend on the summary accumulated so far.\<close>

lemma summaryMessageLoop_fst:
  "fst (summaryMessageLoop msgs t summ) = fst (summaryMessageLoop msgs t summ')"
proof (induction msgs arbitrary: t summ summ')
  case Nil
  then show ?case by simp
next
  case (Cons m msgs)
  show ?case
  proof (cases "messageUsage m")
    case None
    with Cons [of _ summ summ'] show ?thesis by simp
  next
    case (Some u)
    show ?thesis
    proof (cases "type m = Assistant")
      case True
      with Some Cons show ?thesis by (simp add: Let_def)
    next
      case False
      with Some Cons [of _ summ summ'] show ?thesis by simp
    qed
  qed
qed

lemma bucketCost_bumpDate:
  "bucketCost (bumpDate d t m) d'
     = (if d' = d then dadd (bucketCost m d) (sessionCost t) else bucketCost m d')"
  by (simp add: bucketCost_def bumpDate_def Let_def update_conv' split: option.splits)

lemma distinct_bumpDate: "distinct (map fst m) \<Longrightarrow> distinct (map fst (bumpDate d t m))"
  by (simp add: bumpDate_def Let_def distinct_update)

lemma costsOn_Cons:
  "costsOn d' ((d, c) # cs) = (if d' = d then c # costsOn d' cs else costsOn d' cs)"
  by (auto simp: costsOn_def)

lemma sessionLoop_costs:
  "sessionLoop e ss summ m idx = Some (summ', m', idx') \<Longrightarrow>
   totalEstimatedCost summ'
     = foldl dadd (totalEstimatedCost summ) (map snd (countedSessions e ss idx))
   \<and> (\<forall>d. bucketCost m' d = foldl dadd (bucketCost m d) (costsOn d (countedSessions e ss idx)))
   \<and> (distinct (map fst m) \<longrightarrow> distinct (map fst m'))"
proof (induction ss arbitrary: summ m idx)
  case Nil
  then show ?case by (simp add: costsOn_def)
next
  case (Cons s ss)
  obtain msgs idx1 where g: "getConversation e idx (id' s) = (msgs, idx1)"
    by (cases "getConversation e idx (id' s)")
  obtain t summ1 where l: "summaryMessageLoop msgs zeroTotals summ = (t, summ1)"
    by (cases "summaryMessageLoop msgs zeroTotals summ")
  from summaryMessageLoop_fst [of msgs zeroTotals summ emptySummary] l
  have t: "fst (summaryMessageLoop msgs zeroTotals emptySummary) = t" by simp
  from summaryMessageLoop_totals [OF l]
  have keep: "totalEstimatedCost summ1 = totalEstimatedCost summ" by simp
  show ?case
  proof (cases "sessionMessageCount t > 0")
    case False
    with Cons.prems g l have "sessionLoop e ss summ1 m idx1 = Some (summ', m', idx')"
      by simp
    from Cons.IH [OF this] keep g t False show ?thesis by simp
  next
    case True
    with Cons.prems g l obtain d where d: "dateKey (Session.timestamp s) = Some d"
      by (cases "dateKey (Session.timestamp s)") auto
    let ?summ2 = "summ1\<lparr>
        UsageSummary.sessionCount := UsageSummary.sessionCount summ1 + 1,
        UsageSummary.messageCount := UsageSummary.messageCount summ1 + sessionMessageCount t,
        UsageSummary.totalInputTokens :=
          UsageSummary.totalInputTokens summ1 + sessionInputTokens t,
        UsageSummary.totalOutputTokens :=
          UsageSummary.totalOutputTokens summ1 + sessionOutputTokens t,
        totalEstimatedCost := dadd (totalEstimatedCost summ1) (sessionCost t),
        byProject := bumpProject s t (byProject summ1)\<rparr>"
    from Cons.prems g l True d
    have "sessionLoop e ss ?summ2 (bumpDate d t m) idx1 = Some (summ', m', idx')"
      by simp
    from Cons.IH [OF this]
    have tot: "totalEstimatedCost summ'
        = foldl dadd (dadd (totalEstimatedCost summ1) (sessionCost t))
            (map snd (countedSessions e ss idx1))"
      and bk: "\<And>d'. bucketCost m' d'
        = foldl dadd (bucketCost (bumpDate d t m) d') (costsOn d' (countedSessions e ss idx1))"
      and di: "distinct (map fst (bumpDate d t m)) \<longrightarrow> distinct (map fst m')"
      by simp_all
    have cs: "countedSessions e (s # ss) idx = (d, sessionCost t) # countedSessions e ss idx1"
      using g t True d by simp
    have a: "totalEstimatedCost summ'
        = foldl dadd (totalEstimatedCost summ) (map snd (countedSessions e (s # ss) idx))"
      by (simp only: cs tot keep list.map snd_conv foldl_Cons)
    have b: "bucketCost m' d'
        = foldl dadd (bucketCost m d') (costsOn d' (countedSessions e (s # ss) idx))" for d'
      by (simp only: cs bk bucketCost_bumpDate costsOn_Cons) simp
    from di distinct_bumpDate [of m d t]
    have c: "distinct (map fst m) \<longrightarrow> distinct (map fst m')" by blast
    from a b c show ?thesis by blast
  qed
qed

lemma toDateUsage_fields:
  "DateUsage.inputTokens \<circ> toDateUsage = DateTotals.inputTokens \<circ> snd"
  "DateUsage.outputTokens \<circ> toDateUsage = DateTotals.outputTokens \<circ> snd"
  "DateUsage.sessionCount \<circ> toDateUsage = DateTotals.sessionCount \<circ> snd"
  by (auto simp: toDateUsage_def fun_eq_iff)

lemma bucket_of_date:
  assumes di: "distinct (map fst m)" and b: "b \<in> set (sort_key date (map toDateUsage m))"
  shows "DateUsage.cost b = bucketCost m (date b)"
proof -
  from b obtain d x where x: "(d, x) \<in> set m" and bx: "b = toDateUsage (d, x)" by auto
  from di x have "map_of m d = Some x" by simp
  with bx show ?thesis by (simp add: bucketCost_def toDateUsage_def)
qed

text \<open>Double arithmetic on the costs of the third sample directory.\<close>

lemma toDouble_0: "toDouble 0 = 0"
  by (simp add: toDouble_def)

lemma dadd_0_right: "dadd x 0 = toDouble x"
  by (simp add: dadd_def)

lemma dadd_0_left: "dadd 0 x = toDouble x"
  by (simp add: dadd_def)

lemma dmul_1_right: "dmul x 1 = toDouble x"
  by (simp add: dmul_def)

lemma dmul_0_left: "dmul 0 x = 0"
  by (simp add: dmul_def toDouble_0)

lemma ddiv_0_left: "ddiv 0 x = 0"
  by (simp add: ddiv_def toDouble_0)

lemma toDouble_counts:
  "toDouble 1 = 1" "toDouble 5 = 5"
  "toDouble 100000 = 100000" "toDouble 200000 = 200000" "toDouble 300000 = 300000"
  by code_simp+

lemma ddiv_million:
  "ddiv 100000 1000000 = 3602879701896397 / 36028797018963968"
  "ddiv 200000 1000000 = 3602879701896397 / 18014398509481984"
  "ddiv 300000 1000000 = 5404319552844595 / 18014398509481984"
  by code_simp+

lemma toDouble_tenths:
  "toDouble (3602879701896397 / 36028797018963968) = 3602879701896397 / 36028797018963968"
  "toDouble (3602879701896397 / 18014398509481984) = 3602879701896397 / 18014398509481984"
  "toDouble (5404319552844595 / 18014398509481984) = 5404319552844595 / 18014398509481984"
  "toDouble (1 / 2) = 1 / 2"
  by code_simp+

lemma dadd_tenths:
  "dadd (3602879701896397 / 36028797018963968) (5404319552844595 / 18014398509481984)
     = 3602879701896397 / 9007199254740992"
  "dadd (3602879701896397 / 9007199254740992) (3602879701896397 / 18014398509481984)
     = 1351079888211149 / 2251799813685248"
  "dadd (5404319552844595 / 18014398509481984) (3602879701896397 / 18014398509481984) = 1 / 2"
  "dadd (1 / 2) (3602879701896397 / 36028797018963968) = 5404319552844595 / 9007199254740992"
  by code_simp+

lemmas double_simps = toDouble_0 dadd_0_right dadd_0_left dmul_1_right dmul_0_left ddiv_0_left
  toDouble_counts ddiv_million toDouble_tenths dadd_tenths

lemmas usage_simps = getUsageSummary_def filterSessions_def zeroTotals_def emptySummary_def
  dateKey_def validTime_def dayMs_def bumpDate_def bumpProject_def bumpModel_def toDateUsage_def
  messageUsage_def messageModel_def

lemmas cost_simps = costEnv_def costFiles_def costDecode_def costMessage_def costSessions_def
  findSessionFile_def getConversation_def join_def Let_def LF_def CR_def trim_def isSpace_def
  trimJson_def isJsonSpace_def JSON_parse_def calculateCostDouble_def cacheCostDouble_def
  getModelPricing_def MODEL_PRICING_def mkPricing_def

text \<open>
  The costs of three sessions, the doubles nearest to 0.1, 0.3 and 0.2, the first
  session of one day and the other two of the day before: the total is
  \<open>(0.1 + 0.3) + 0.2\<close>, the double above 0.6, and the buckets hold \<open>0.3 + 0.2 = 0.5\<close>
  and 0.1, whose sum, exact or rounded, is not the total.
\<close>

theorem usage_cost_counterexample:
  "map snd (countedSessions costEnv costSessions Map.empty)
     = [3602879701896397 / 2 ^ 55, 5404319552844595 / 2 ^ 54, 3602879701896397 / 2 ^ 54]
   \<and> map_option (\<lambda>r. (totalEstimatedCost (fst r), map DateUsage.cost (byDate (fst r)),
          sum_list (map DateUsage.cost (byDate (fst r))) = totalEstimatedCost (fst r),
          foldl dadd 0 (map DateUsage.cost (byDate (fst r))) = totalEstimatedCost (fst r)))
       (getUsageSummary costEnv Map.empty costSessions \<lparr>timeRange = None, project = None\<rparr>)
     = Some (5404319552844596 / 2 ^ 53, [1 / 2, 3602879701896397 / 2 ^ 55], False, False)"
  by (simp add: cost_simps usage_simps double_simps)

text \<open>
  Claim C2, as the code has it. For every list of sessions and every filter, in the
  summary that \<open>getUsageSummary\<close> returns, the input tokens, output tokens and session
  counts of the \<open>byDate\<close> buckets add up to the grand totals. The costs are doubles:
  the total cost is the costs of the counted sessions added up in the order of the
  sessions, each addition rounded, and the cost of a bucket is the costs of the counted
  sessions of its day added up in that order; the costs of the buckets need not add up
  to the total cost.
\<close>

theorem usage_summary_additive:
  assumes "getUsageSummary e idx sessions opts = Some (summ, idx')"
  shows "sum_list (map DateUsage.inputTokens (byDate summ)) = UsageSummary.totalInputTokens summ
       \<and> sum_list (map DateUsage.outputTokens (byDate summ))
           = UsageSummary.totalOutputTokens summ
       \<and> sum_list (map DateUsage.sessionCount (byDate summ)) = UsageSummary.sessionCount summ
       \<and> totalEstimatedCost summ
           = foldl dadd 0 (map snd (countedSessions e (filterSessions opts sessions) idx))
       \<and> (\<forall>b \<in> set (byDate summ).
             DateUsage.cost b
               = foldl dadd 0
                   (costsOn (date b) (countedSessions e (filterSessions opts sessions) idx)))"
proof -
  from assms obtain s0 m where
    loop: "sessionLoop e (filterSessions opts sessions) emptySummary [] idx = Some (s0, m, idx')"
    and summ: "summ = s0\<lparr>byDate := sort_key date (map toDateUsage m)\<rparr>"
    by (auto simp: getUsageSummary_def split: option.splits)
  have "additive emptySummary []" by (simp add: additive_def emptySummary_def)
  from sessionLoop_additive [OF loop this] have "additive s0 m" .
  then have ints: "sum_list (map DateUsage.inputTokens (byDate summ))
        = UsageSummary.totalInputTokens summ
       \<and> sum_list (map DateUsage.outputTokens (byDate summ))
           = UsageSummary.totalOutputTokens summ
       \<and> sum_list (map DateUsage.sessionCount (byDate summ)) = UsageSummary.sessionCount summ"
    by (simp add: summ additive_def sum_list_sort_key toDateUsage_fields)
  from sessionLoop_costs [OF loop]
  have tot: "totalEstimatedCost s0
        = foldl dadd 0 (map snd (countedSessions e (filterSessions opts sessions) idx))"
    and bk: "\<And>d. bucketCost m d
        = foldl dadd 0 (costsOn d (countedSessions e (filterSessions opts sessions) idx))"
    and di: "distinct (map fst m)"
    by (simp_all add: emptySummary_def bucketCost_def)
  have cost: "DateUsage.cost b
        = foldl dadd 0 (costsOn (date b) (countedSessions e (filterSessions opts sessions) idx))"
    if "b \<in> set (byDate summ)" for b
    using that bucket_of_date [OF di, of b] bk [of "date b"] by (simp add: summ)
  from ints tot cost show ?thesis by (simp add: summ)
qed

lemma sample_summary_totals:
  "map_option (\<lambda>r. (UsageSummary.totalInputTokens (fst r), UsageSummary.totalOutputTokens (fst r),
       UsageSummary.sessionCount (fst r), map date (byDate (fst r))))
     (getUsageSummary sampleEnv Map.empty sampleSessions
        \<lparr>timeRange = None, project = Some ''/a/b''\<rparr>)
   = Some (2000000, 4000, 3, [20458, 20460])"
  by (simp add: sample_simps usage_simps sampleSessions_def)

theorem usage_summary_additive_witness:
  "\<exists>summ idx'.
     getUsageSummary sampleEnv Map.empty sampleSessions
       \<lparr>timeRange = None, project = Some ''/a/b''\<rparr> = Some (summ, idx')
     \<and> UsageSummary.totalInputTokens summ = 2000000
     \<and> sum_list (map DateUsage.inputTokens (byDate summ)) = 2000000
     \<and> UsageSummary.totalOutputTokens summ = 4000
     \<and> sum_list (map DateUsage.outputTokens (byDate summ)) = 4000
     \<and> UsageSummary.sessionCount summ = 3
     \<and> sum_list (map DateUsage.sessionCount (byDate summ)) = 3"
proof -
  from sample_summary_totals obtain summ idx' where
    eq: "getUsageSummary sampleEnv Map.empty sampleSessions
           \<lparr>timeRange = None, project = Some ''/a/b''\<rparr> = Some (summ, idx')"
    and tot: "UsageSummary.totalInputTokens summ = 2000000"
      "UsageSummary.totalOutputTokens summ = 4000" "UsageSummary.sessionCount summ = 3"
    by (cases "getUsageSummary sampleEnv Map.empty sampleSessions
           \<lparr>timeRange = None, project = Some ''/a/b''\<rparr>") auto
  from usage_summary_additive [OF eq] eq tot show ?thesis by simp
qed

section \<open>The daily series\<close>

lemma dayMs_pos: "0 < dayMs"
  by (simp add: dayMs_def)

lemma daySteps_Suc:
  "current \<le> endDate \<Longrightarrow> daySteps endDate current = Suc (daySteps endDate (current + dayMs))"
proof -
  assume le: "current \<le> endDate"
  have d: "(endDate - current) div dayMs = (endDate - (current + dayMs)) div dayMs + 1"
  proof -
    have "endDate - current = (endDate - (current + dayMs)) + dayMs" by simp
    then have "(endDate - current) div dayMs = ((endDate - (current + dayMs)) + dayMs) div dayMs"
      by simp
    also have "\<dots> = (endDate - (current + dayMs)) div dayMs + 1"
      using dayMs_pos by (simp only: div_add_self2) 
    finally show ?thesis .
  qed
  show ?thesis
  proof (cases "current + dayMs \<le> endDate")
    case True
    then have "0 \<le> (endDate - (current + dayMs)) div dayMs"
      using dayMs_pos by (simp add: pos_imp_zdiv_nonneg_iff)
    with le True d show ?thesis by (simp add: daySteps_def nat_add_distrib)
  next
    case False
    with le have "0 \<le> endDate - current" "endDate - current < dayMs" by simp_all
    then have "(endDate - current) div dayMs = 0" by (simp add: div_pos_pos_trivial)
    with le False show ?thesis by (simp add: daySteps_def)
  qed
qed

lemma validTime_between:
  "validTime a \<Longrightarrow> validTime b \<Longrightarrow> a \<le> t \<Longrightarrow> t \<le> b \<Longrightarrow> validTime t"
  by (simp add: validTime_def)

lemma fillDates_eq:
  "validTime endDate \<Longrightarrow> validTime current \<Longrightarrow>
   fillDates dateMap endDate current
     = Some (map (\<lambda>k. dayEntry dateMap (current div dayMs + int k))
              [0 ..< daySteps endDate current])"
proof (induction dateMap endDate current rule: fillDates.induct)
  case (1 dateMap endDate current)
  show ?case
  proof (cases "current \<le> endDate")
    case False
    then show ?thesis by (simp add: daySteps_def)
  next
    case True
    from "1.prems" have key: "dateKey current = Some (current div dayMs)"
      by (simp add: dateKey_def)
    have next_valid: "validTime (current + dayMs) \<or> endDate < current + dayMs"
      using "1.prems" True by (auto simp: validTime_def dayMs_def)
    have rest: "fillDates dateMap endDate (current + dayMs)
         = Some (map (\<lambda>k. dayEntry dateMap ((current + dayMs) div dayMs + int k))
              [0 ..< daySteps endDate (current + dayMs)])"
    proof (cases "current + dayMs \<le> endDate")
      case le: True
      with next_valid have "validTime (current + dayMs)" by simp
      from "1.IH" [OF True key "1.prems"(1) this] show ?thesis .
    next
      case gt: False
      then show ?thesis by (simp add: daySteps_def)
    qed
    have shift: "(current + dayMs) div dayMs = current div dayMs + 1"
      using dayMs_pos by simp
    have "fillDates dateMap endDate current
            = Some (dayEntry dateMap (current div dayMs)
                # map (\<lambda>k. dayEntry dateMap (current div dayMs + 1 + int k))
                    [0 ..< daySteps endDate (current + dayMs)])"
      using True key rest shift
      by (subst fillDates.simps) (simp add: dayEntry_def)
    also have "\<dots> = Some (map (\<lambda>k. dayEntry dateMap (current div dayMs + int k))
              [0 ..< Suc (daySteps endDate (current + dayMs))])"
      by (simp add: map_upt_Suc add.assoc del: upt_Suc)
    finally show ?thesis by (simp only: daySteps_Suc [OF True])
  qed
qed

lemma sessionLoop_total:
  "\<forall>s \<in> set ss. validTime (Session.timestamp s) \<Longrightarrow>
   \<exists>r. sessionLoop e ss summ m idx = Some r"
proof (induction ss arbitrary: summ m idx)
  case Nil
  then show ?case by simp
next
  case (Cons s ss)
  from Cons.prems have s: "dateKey (Session.timestamp s) = Some (Session.timestamp s div dayMs)"
    and rest: "\<forall>s \<in> set ss. validTime (Session.timestamp s)"
    by (simp_all add: dateKey_def)
  show ?case
    using s Cons.IH [OF rest]
    by (auto split: prod.splits)
qed

lemma filterSessions_range_valid:
  assumes "validTime a" and "validTime b"
  shows "\<forall>s \<in> set (filterSessions
            \<lparr>timeRange = Some \<lparr>start = Some a, end' = Some b\<rparr>, project = None\<rparr> sessions).
          validTime (Session.timestamp s)"
  using assms by (auto simp: filterSessions_def intro: validTime_between)

lemma getUsageSummary_range_total:
  assumes "validTime a" and "validTime b"
  shows "\<exists>r. getUsageSummary e idx sessions
            \<lparr>timeRange = Some \<lparr>start = Some a, end' = Some b\<rparr>, project = None\<rparr> = Some r"
  using sessionLoop_total [OF filterSessions_range_valid [OF assms], of e sessions emptySummary "[]" idx]
  by (auto simp: getUsageSummary_def)

lemma daySteps_days:
  "0 \<le> days \<Longrightarrow> daySteps now (now - days * dayMs) = nat days + 1"
  using dayMs_pos by (simp add: daySteps_def nat_add_distrib)

lemma date_dayEntry:
  "date (dayEntry (map_of (rev (map (\<lambda>d. (date d, d)) xs))) d) = d"
proof (cases "map_of (rev (map (\<lambda>d. (date d, d)) xs)) d")
  case None
  then show ?thesis by (simp add: dayEntry_def)
next
  case (Some x)
  from map_of_SomeD [OF Some] have "d = date x" by auto
  with Some show ?thesis by (simp add: dayEntry_def)
qed

text \<open>
  Claim C5, what the code returns. With both clock readings at the same instant
  \<open>now\<close> and \<open>days\<close> not negative, \<open>getDailyUsage\<close> returns \<open>days + 1\<close> entries,
  one for each of the consecutive dates from \<open>days\<close> days before today up to today:
  the bucket of the summary for that date, or the zero entry when the summary has none.
  For \<open>days = 7\<close> these are 8 entries, not 7.
\<close>

theorem daily_usage_series:
  assumes days: "0 \<le> days" and now: "validTime now" and start: "validTime (now - days * dayMs)"
  shows "\<exists>summ idx' series.
           getUsageSummary e idx sessions
             \<lparr>timeRange = Some \<lparr>start = Some (now - days * dayMs), end' = Some now\<rparr>,
              project = None\<rparr> = Some (summ, idx')
         \<and> getDailyUsage e idx sessions now now days = Some (series, idx')
         \<and> length series = nat days + 1
         \<and> series = map (\<lambda>k. dayEntry (map_of (rev (map (\<lambda>d. (date d, d)) (byDate summ))))
                               (now div dayMs - days + int k)) [0 ..< nat days + 1]
         \<and> map date series = map (\<lambda>k. now div dayMs - days + int k) [0 ..< nat days + 1]"
proof -
  from getUsageSummary_range_total [OF start now, of e idx sessions]
  obtain summ idx' where
    g: "getUsageSummary e idx sessions
          \<lparr>timeRange = Some \<lparr>start = Some (now - days * dayMs), end' = Some now\<rparr>,
           project = None\<rparr> = Some (summ, idx')"
    by auto
  have shift: "(now - days * dayMs) div dayMs = now div dayMs - days"
  proof -
    have "(now - days * dayMs) div dayMs = (now + (- days) * dayMs) div dayMs" by simp
    also have "\<dots> = - days + now div dayMs"
      using dayMs_pos by (subst div_mult_self1) simp_all
    finally show ?thesis by simp
  qed
  let ?dm = "map_of (rev (map (\<lambda>d. (date d, d)) (byDate summ)))"
  from fillDates_eq [OF now start, of ?dm]
  have f: "fillDates ?dm now (now - days * dayMs)
             = Some (map (\<lambda>k. dayEntry ?dm (now div dayMs - days + int k)) [0 ..< nat days + 1])"
    by (simp only: shift daySteps_days [OF days])
  from g f now start show ?thesis
    by (simp add: getDailyUsage_def Let_def date_dayEntry comp_def del: upt_Suc)
qed

lemma sample_daily:
  "map_option (\<lambda>r. (length (fst r), map date (fst r), map DateUsage.sessionCount (fst r)))
     (getDailyUsage sampleEnv Map.empty sampleSessions 1767866400000 1767866400000 7)
   = Some (8, [20454, 20455, 20456, 20457, 20458, 20459, 20460, 20461],
           [0, 0, 0, 0, 2, 0, 1, 0])"
  by (simp add: sample_simps usage_simps sampleSessions_def getDailyUsage_def)

theorem daily_usage_series_witness:
  "\<exists>series idx'.
     getDailyUsage sampleEnv Map.empty sampleSessions 1767866400000 1767866400000 7
       = Some (series, idx')
     \<and> length series = 8
     \<and> map date series = [20454, 20455, 20456, 20457, 20458, 20459, 20460, 20461]
     \<and> map DateUsage.sessionCount series = [0, 0, 0, 0, 2, 0, 1, 0]"
proof -
  have days: "(0::int) \<le> 7" by simp
  have now: "validTime 1767866400000" by (simp add: validTime_def)
  have start: "validTime (1767866400000 - 7 * dayMs)" by (simp add: validTime_def dayMs_def)
  from daily_usage_series [OF days now start, of sampleEnv Map.empty sampleSessions]
  obtain series idx' where
    d: "getDailyUsage sampleEnv Map.empty sampleSessions 1767866400000 1767866400000 7
          = Some (series, idx')"
    and len: "length series = nat 7 + 1"
    by blast
  from sample_daily d have
    "map date series = [20454, 20455, 20456, 20457, 20458, 20459, 20460, 20461]"
    "map DateUsage.sessionCount series = [0, 0, 0, 0, 2, 0, 1, 0]"
    by simp_all
  with d len show ?thesis by simp
qed

section \<open>History reconciler\<close>

lemma statAll_names:
  "statAll e dir fs = Inr r \<Longrightarrow> map fst r = fs"
  by (induction fs arbitrary: r) (auto split: sum.splits)

lemma statAll_mtime:
  "statAll e dir fs = Inr r \<Longrightarrow> (f, m) \<in> set r \<Longrightarrow>
   f \<in> set fs \<and> (\<exists>st. stat e (join dir f) = Inr st \<and> mtimeMs st = m)"
  by (induction fs arbitrary: r) (auto split: sum.splits)

lemma statAll_complete:
  "statAll e dir fs = Inr r \<Longrightarrow> g \<in> set fs \<Longrightarrow> stat e (join dir g) = Inr st \<Longrightarrow>
   (g, mtimeMs st) \<in> set r"
  by (induction fs arbitrary: r) (auto split: sum.splits)

lemma statAll_total:
  "\<forall>f \<in> set fs. \<exists>st. stat e (join dir f) = Inr st \<Longrightarrow> \<exists>r. statAll e dir fs = Inr r"
  by (induction fs) (auto split: sum.splits)

lemma closestLoop_from:
  "\<exists>f d. closestLoop fs ts (Some f0) (Some d0) = Some f
     \<and> ((f = f0 \<and> d = d0) \<or> (\<exists>m. (f, m) \<in> set fs \<and> d = \<bar>m - ts\<bar>))
     \<and> d \<le> d0 \<and> (\<forall>(g, m') \<in> set fs. d \<le> \<bar>m' - ts\<bar>)"
proof (induction fs arbitrary: f0 d0)
  case Nil
  then show ?case by simp
next
  case (Cons a fs)
  obtain fname mtime where a: "a = (fname, mtime)" by (cases a)
  show ?case
  proof (cases "\<bar>mtime - ts\<bar> < d0")
    case True
    from Cons.IH [of fname "\<bar>mtime - ts\<bar>"] obtain f d where
      "closestLoop fs ts (Some fname) (Some \<bar>mtime - ts\<bar>) = Some f"
      "(f = fname \<and> d = \<bar>mtime - ts\<bar>) \<or> (\<exists>m. (f, m) \<in> set fs \<and> d = \<bar>m - ts\<bar>)"
      "d \<le> \<bar>mtime - ts\<bar>" "\<forall>(g, m') \<in> set fs. d \<le> \<bar>m' - ts\<bar>"
      by blast
    with True a show ?thesis
      by (intro exI [of _ f] exI [of _ d]) (auto simp: Let_def)
  next
    case False
    from Cons.IH [of f0 d0] obtain f d where
      "closestLoop fs ts (Some f0) (Some d0) = Some f"
      "(f = f0 \<and> d = d0) \<or> (\<exists>m. (f, m) \<in> set fs \<and> d = \<bar>m - ts\<bar>)"
      "d \<le> d0" "\<forall>(g, m') \<in> set fs. d \<le> \<bar>m' - ts\<bar>"
      by blast
    with False a show ?thesis
      by (intro exI [of _ f] exI [of _ d]) (auto simp: Let_def)
  qed
qed

lemma closestLoop_closest:
  assumes "fs \<noteq> []"
  shows "\<exists>f m. (f, m) \<in> set fs \<and> closestLoop fs ts None None = Some f
            \<and> (\<forall>(g, m') \<in> set fs. \<bar>m - ts\<bar> \<le> \<bar>m' - ts\<bar>)"
proof -
  from assms obtain fname mtime rest where fs: "fs = (fname, mtime) # rest"
    by (cases fs) auto
  from closestLoop_from [of rest ts fname "\<bar>mtime - ts\<bar>"] obtain f d where
    r: "closestLoop rest ts (Some fname) (Some \<bar>mtime - ts\<bar>) = Some f"
    and src: "(f = fname \<and> d = \<bar>mtime - ts\<bar>) \<or> (\<exists>m. (f, m) \<in> set rest \<and> d = \<bar>m - ts\<bar>)"
    and le: "d \<le> \<bar>mtime - ts\<bar>" and min: "\<forall>(g, m') \<in> set rest. d \<le> \<bar>m' - ts\<bar>"
    by blast
  from src obtain m where m: "(f, m) \<in> set fs" "d = \<bar>m - ts\<bar>"
    using fs by auto
  from r fs have "closestLoop fs ts None None = Some f" by (simp add: Let_def)
  with m le min fs show ?thesis by (intro exI [of _ f] exI [of _ m]) auto
qed

lemma closestLoop_empty: "closestLoop [] ts None None = None"
  by simp

lemma endsWith_nonempty: "endsWith f ''.jsonl'' \<Longrightarrow> f \<noteq> []"
  by (auto simp: endsWith_def)

text \<open>
  Claim C7. For a history entry without a session id: the project path is encoded by
  replacing every \<open>/\<close> and \<open>.\<close> with \<open>-\<close>; if the encoded project directory
  cannot be listed or lists no \<open>.jsonl\<close> file, the entry resolves to nothing and adds
  no session; if it lists \<open>.jsonl\<close> files whose modification times can be read, the
  entry resolves to the base name of one of them whose modification time is at least as
  close to the entry's timestamp as that of every other.
\<close>

theorem history_entry_reconciled:
  assumes nosid: "\<not> truthy (HistoryEntry.sessionId entry)"
    and dir: "dir = join (projectsDir e) (encodeProjectPath (HistoryEntry.project entry))"
    and ts: "ts = of_int (HistoryEntry.timestamp entry)"
  shows "length (encodeProjectPath p) = length p
       \<and> (\<forall>i < length p. encodeProjectPath p ! i
             = (if p ! i = CHR ''/'' \<or> p ! i = CHR ''.'' then CHR ''-'' else p ! i))
       \<and> (readdir e dir = Inl err
            \<or> (\<exists>files. readdir e dir = Inr files
                 \<and> filter (\<lambda>f. endsWith f ''.jsonl'') (map name files) = [])
          \<longrightarrow> resolveEntry e entry = None
              \<and> historySessions e [entry] seenIds sessions = sessions)
       \<and> (readdir e dir = Inr files
            \<and> filter (\<lambda>f. endsWith f ''.jsonl'') (map name files) \<noteq> []
            \<and> (\<forall>f \<in> set (filter (\<lambda>f. endsWith f ''.jsonl'') (map name files)).
                  \<exists>st. stat e (join dir f) = Inr st)
          \<longrightarrow> (\<exists>f st. f \<in> set (map name files) \<and> endsWith f ''.jsonl''
                 \<and> stat e (join dir f) = Inr st
                 \<and> resolveEntry e entry = Some (basename f ''.jsonl'')
                 \<and> (\<forall>g st'. g \<in> set (map name files) \<and> endsWith g ''.jsonl''
                        \<and> stat e (join dir g) = Inr st'
                      \<longrightarrow> \<bar>mtimeMs st - ts\<bar> \<le> \<bar>mtimeMs st' - ts\<bar>)))"
proof -
  have enc: "length (encodeProjectPath p) = length p
       \<and> (\<forall>i < length p. encodeProjectPath p ! i
             = (if p ! i = CHR ''/'' \<or> p ! i = CHR ''.'' then CHR ''-'' else p ! i))"
    by (simp add: encodeProjectPath_def)
  have res: "resolveEntry e entry
               = findSessionByTimestamp e (encodeProjectPath (HistoryEntry.project entry))
                   (HistoryEntry.timestamp entry)"
    using nosid by (simp add: resolveEntry_def)
  have dropped: "resolveEntry e entry = None
              \<and> historySessions e [entry] seenIds sessions = sessions"
    if "readdir e dir = Inl err
            \<or> (\<exists>files. readdir e dir = Inr files
                 \<and> filter (\<lambda>f. endsWith f ''.jsonl'') (map name files) = [])"
  proof -
    from that dir have "resolveEntry e entry = None"
      by (auto simp: res findSessionByTimestamp_def Let_def)
    then show ?thesis by simp
  qed
  have found: "\<exists>f st. f \<in> set (map name files) \<and> endsWith f ''.jsonl''
                 \<and> stat e (join dir f) = Inr st
                 \<and> resolveEntry e entry = Some (basename f ''.jsonl'')
                 \<and> (\<forall>g st'. g \<in> set (map name files) \<and> endsWith g ''.jsonl''
                        \<and> stat e (join dir g) = Inr st'
                      \<longrightarrow> \<bar>mtimeMs st - ts\<bar> \<le> \<bar>mtimeMs st' - ts\<bar>)"
    if rd: "readdir e dir = Inr files"
      and ne: "filter (\<lambda>f. endsWith f ''.jsonl'') (map name files) \<noteq> []"
      and ok: "\<forall>f \<in> set (filter (\<lambda>f. endsWith f ''.jsonl'') (map name files)).
                  \<exists>st. stat e (join dir f) = Inr st"
  proof -
    let ?js = "filter (\<lambda>f. endsWith f ''.jsonl'') (map name files)"
    from statAll_total [OF ok] obtain r where r: "statAll e dir ?js = Inr r" by blast
    from statAll_names [OF r] ne have "r \<noteq> []" by auto
    from closestLoop_closest [OF this, of ts] obtain f m where
      fm: "(f, m) \<in> set r" and cl: "closestLoop r ts None None = Some f"
      and min: "\<forall>(g, m') \<in> set r. \<bar>m - ts\<bar> \<le> \<bar>m' - ts\<bar>"
      by blast
    from statAll_mtime [OF r fm] obtain st where
      f: "f \<in> set ?js" and st: "stat e (join dir f) = Inr st" "mtimeMs st = m"
      by blast
    from f have fne: "f \<noteq> []" by (auto dest: endsWith_nonempty)
    have "resolveEntry e entry = Some (basename f ''.jsonl'')"
      using rd r cl fne dir ts by (simp add: res findSessionByTimestamp_def Let_def)
    moreover have "\<bar>mtimeMs st - ts\<bar> \<le> \<bar>mtimeMs st' - ts\<bar>"
      if "g \<in> set (map name files) \<and> endsWith g ''.jsonl'' \<and> stat e (join dir g) = Inr st'"
      for g st'
    proof -
      from that have "g \<in> set ?js" by simp
      from statAll_complete [OF r this, of st'] that have "(g, mtimeMs st') \<in> set r" by simp
      with min st show ?thesis by auto
    qed
    ultimately show ?thesis using f st by (intro exI [of _ f] exI [of _ st]) auto
  qed
  from enc dropped found show ?thesis by blast
qed

lemmas reconciler_simps = sampleEnv_def sampleFiles_def sampleEntry_def sampleLostEntry_def
  sampleListing_def join_def encodeProjectPath_def endsWith_def truthy_def resolveEntry_def
  findSessionByTimestamp_def basename_def Let_def

theorem history_entry_reconciled_witness:
  "encodeProjectPath ''/a/b'' = ''-a-b''
   \<and> (\<exists>f st. f \<in> set (map name sampleListing)
         \<and> stat sampleEnv (join ''/p/-a-b'' f) = Inr st
         \<and> resolveEntry sampleEnv sampleEntry = Some (basename f ''.jsonl'')
         \<and> \<bar>mtimeMs st - 2400\<bar> \<le> \<bar>2500 - 2400\<bar>)
   \<and> resolveEntry sampleEnv sampleEntry = Some ''s2''
   \<and> resolveEntry sampleEnv sampleLostEntry = None
   \<and> historySessions sampleEnv [sampleLostEntry] {} [] = []"
proof -
  have nosid: "\<not> truthy (HistoryEntry.sessionId sampleEntry)"
    by (simp add: reconciler_simps)
  have dir: "''/p/-a-b'' = join (projectsDir sampleEnv)
               (encodeProjectPath (HistoryEntry.project sampleEntry))"
    by (simp add: reconciler_simps)
  have ts: "(2400::rat) = of_int (HistoryEntry.timestamp sampleEntry)"
    by (simp add: reconciler_simps)
  have rd: "readdir sampleEnv ''/p/-a-b'' = Inr sampleListing"
    by (simp add: reconciler_simps)
  have ne: "filter (\<lambda>f. endsWith f ''.jsonl'') (map name sampleListing) \<noteq> []"
    by (simp add: reconciler_simps)
  have ok: "\<forall>f \<in> set (filter (\<lambda>f. endsWith f ''.jsonl'') (map name sampleListing)).
              \<exists>st. stat sampleEnv (join ''/p/-a-b'' f) = Inr st"
    by (simp add: reconciler_simps)
  have s2: "''s2.jsonl'' \<in> set (map name sampleListing) \<and> endsWith ''s2.jsonl'' ''.jsonl''
      \<and> stat sampleEnv (join ''/p/-a-b'' ''s2.jsonl'') = Inr \<lparr>size_bytes = 6, mtimeMs = 2500\<rparr>"
    by (simp add: reconciler_simps)
  from history_entry_reconciled [OF nosid dir ts, where p = "''/a/b''" and err = ENOENT
      and files = sampleListing and seenIds = "{}" and sessions = "[]"]
    rd ne ok
  obtain f st where
    f: "f \<in> set (map name sampleListing)" "stat sampleEnv (join ''/p/-a-b'' f) = Inr st"
      "resolveEntry sampleEnv sampleEntry = Some (basename f ''.jsonl'')"
    and min: "\<forall>g st'. g \<in> set (map name sampleListing) \<and> endsWith g ''.jsonl''
                \<and> stat sampleEnv (join ''/p/-a-b'' g) = Inr st'
              \<longrightarrow> \<bar>mtimeMs st - 2400\<bar> \<le> \<bar>mtimeMs st' - 2400\<bar>"
    by blast
  from min s2 have close: "\<bar>mtimeMs st - 2400\<bar> \<le> \<bar>2500 - 2400\<bar>"
    by fastforce
  have nosid': "\<not> truthy (HistoryEntry.sessionId sampleLostEntry)"
    by (simp add: reconciler_simps)
  have dir': "''/p/-x-y'' = join (projectsDir sampleEnv)
               (encodeProjectPath (HistoryEntry.project sampleLostEntry))"
    by (simp add: reconciler_simps)
  have ts': "(2400::rat) = of_int (HistoryEntry.timestamp sampleLostEntry)"
    by (simp add: reconciler_simps)
  have rd': "readdir sampleEnv ''/p/-x-y'' = Inl ENOENT"
    by (simp add: reconciler_simps)
  from history_entry_reconciled [OF nosid' dir' ts', where p = "''/a/b''" and err = ENOENT
      and seenIds = "{}" and sessions = "[]"] rd'
  have lost: "resolveEntry sampleEnv sampleLostEntry = None"
    "historySessions sampleEnv [sampleLostEntry] {} [] = []"
    by blast+
  have enc: "encodeProjectPath ''/a/b'' = ''-a-b''"
    by (simp add: reconciler_simps)
  have val: "resolveEntry sampleEnv sampleEntry = Some ''s2''"
    by (simp add: reconciler_simps)
  from enc f close val lost show ?thesis by blast
qed

section \<open>Request coalescer\<close>

lemma calls_in_flight:
  "pendingRequests st (''getConversation:'' @ sid) = Some p \<Longrightarrow>
   callsGetConversation n st sid = (replicate n p, st)"
  by (induction n) (simp_all add: callGetConversation_def dedupe_def)

text \<open>
  Claim C9, as the code has it. The full read is coalesced per session id: a call while
  the key is in flight returns the in-flight promise and starts nothing; any number of
  calls from an idle key start exactly one computation and all return its promise; the
  entry is removed when the promise settles, so the next call starts fresh work. The
  incremental read does not go through the coalescer: every call starts a computation of
  its own and leaves the in-flight map as it is.
\<close>

theorem conversation_reads_coalesced:
  "(pendingRequests st (''getConversation:'' @ sid) = Some p \<longrightarrow>
      callGetConversation st sid = (p, st))
   \<and> (pendingRequests st (''getConversation:'' @ sid) = None \<longrightarrow>
      fst (callsGetConversation (Suc n) st sid) = replicate (Suc n) (nextPromise st)
      \<and> started (snd (callsGetConversation (Suc n) st sid))
           = started st @ [(''getConversation:'' @ sid, nextPromise st)]
      \<and> pendingRequests (snd (callsGetConversation (Suc n) st sid)) (''getConversation:'' @ sid)
           = Some (nextPromise st))
   \<and> pendingRequests (settle st (''getConversation:'' @ sid)) (''getConversation:'' @ sid) = None
   \<and> fst (callGetConversationStream st sid) = nextPromise st
   \<and> started (snd (callGetConversationStream st sid))
        = started st @ [(''getConversationStream:'' @ sid, nextPromise st)]
   \<and> pendingRequests (snd (callGetConversationStream st sid)) = pendingRequests st"
proof -
  have a: "callGetConversation st sid = (p, st)"
    if "pendingRequests st (''getConversation:'' @ sid) = Some p"
    using that by (simp add: callGetConversation_def dedupe_def)
  have b: "fst (callsGetConversation (Suc n) st sid) = replicate (Suc n) (nextPromise st)
      \<and> started (snd (callsGetConversation (Suc n) st sid))
           = started st @ [(''getConversation:'' @ sid, nextPromise st)]
      \<and> pendingRequests (snd (callsGetConversation (Suc n) st sid)) (''getConversation:'' @ sid)
           = Some (nextPromise st)"
    if none: "pendingRequests st (''getConversation:'' @ sid) = None"
  proof -
    obtain st1 where first: "callGetConversation st sid = (nextPromise st, st1)"
      using none by (simp add: callGetConversation_def dedupe_def startWork_def)
    have st1: "pendingRequests st1 (''getConversation:'' @ sid) = Some (nextPromise st)"
      "started st1 = started st @ [(''getConversation:'' @ sid, nextPromise st)]"
      using none first by (auto simp: callGetConversation_def dedupe_def startWork_def)
    from calls_in_flight [OF st1(1), of n] first st1 show ?thesis by simp
  qed
  have c: "pendingRequests (settle st (''getConversation:'' @ sid)) (''getConversation:'' @ sid)
             = None"
    by (simp add: settle_def)
  have d: "fst (callGetConversationStream st sid) = nextPromise st
   \<and> started (snd (callGetConversationStream st sid))
        = started st @ [(''getConversationStream:'' @ sid, nextPromise st)]
   \<and> pendingRequests (snd (callGetConversationStream st sid)) = pendingRequests st"
    by (simp add: callGetConversationStream_def startWork_def)
  from a b c d show ?thesis by blast
qed

text \<open>
  Two incremental reads of one session, the second issued while the first is in flight:
  two computations are started, with two promises.
\<close>

theorem stream_reads_not_coalesced:
  "fst (callGetConversationStream idleLoop ''s1'') = 0
   \<and> fst (callGetConversationStream (snd (callGetConversationStream idleLoop ''s1'')) ''s1'') = 1
   \<and> started (snd (callGetConversationStream
                     (snd (callGetConversationStream idleLoop ''s1'')) ''s1''))
        = [(''getConversationStream:s1'', 0), (''getConversationStream:s1'', 1)]"
  by (simp add: callGetConversationStream_def startWork_def idleLoop_def)

theorem conversation_reads_coalesced_witness:
  "fst (callsGetConversation (Suc (Suc 0)) idleLoop ''s1'') = [0, 0]
   \<and> started (snd (callsGetConversation (Suc (Suc 0)) idleLoop ''s1''))
        = [(''getConversation:s1'', 0)]
   \<and> fst (callGetConversation
            (settle (snd (callsGetConversation (Suc (Suc 0)) idleLoop ''s1''))
               ''getConversation:s1'') ''s1'') = 1"
proof -
  have none: "pendingRequests idleLoop (''getConversation:'' @ ''s1'') = None"
    by (simp add: idleLoop_def)
  from conversation_reads_coalesced [of idleLoop "''s1''" 0 "Suc 0"] none
  have two: "fst (callsGetConversation (Suc (Suc 0)) idleLoop ''s1'') = [0, 0]"
    "started (snd (callsGetConversation (Suc (Suc 0)) idleLoop ''s1''))
        = [(''getConversation:s1'', 0)]"
    by (simp_all add: idleLoop_def)
  have third: "fst (callGetConversation
            (settle (snd (callsGetConversation (Suc (Suc 0)) idleLoop ''s1''))
               ''getConversation:s1'') ''s1'') = 1"
    by (simp add: callGetConversation_def dedupe_def startWork_def settle_def idleLoop_def)
  from two third show ?thesis by simp
qed

end
